theory Spec2Isabelle
  imports Complex_Main "HOL-Library.Word" "HOL-Library.Log_Nat"
begin

section \<open>Colours and the colour distance of \<open>extract_color.py\<close>\<close>

text \<open>
  A dominant colour is \<open>centers[0]\<close> after \<open>np.uint8(centers)\<close>: a NumPy array of three
  unsigned 8-bit channels. The keys of the grouping dictionary are \<open>tuple(color)\<close>, tuples
  of three \<open>np.uint8\<close> scalars. Both are modelled as a triple of 8-bit words.
  Where a helper has printed its error and returned \<open>None\<close>, the value is \<open>None\<close> here.
\<close>

type_synonym u8 = "8 word"
type_synonym color = "u8 \<times> u8 \<times> u8"

text \<open>
  \<open>(color1 - color2) ** 2\<close>: the tuple operand is converted to a \<open>uint8\<close> array, so both
  the subtraction and the square are \<open>uint8\<close> operations and wrap around modulo 256.
\<close>

definition sq_diff :: "color \<Rightarrow> color \<Rightarrow> color" where
  "sq_diff c1 c2 =
     (case c1 of (a1, a2, a3) \<Rightarrow> case c2 of (b1, b2, b3) \<Rightarrow>
        ((a1 - b1) * (a1 - b1), (a2 - b2) * (a2 - b2), (a3 - b3) * (a3 - b3)))"

text \<open>
  \<open>np.sum\<close> of a \<open>uint8\<close> array accumulates in the platform's unsigned integer
  (64 bits), which three values below 256 cannot overflow: the sum is a natural number.
\<close>

definition np_sum :: "color \<Rightarrow> nat" where
  "np_sum c = (case c of (x, y, z) \<Rightarrow> unat x + unat y + unat z)"

text \<open>
  \<open>color_distance\<close>: \<open>np.sqrt(np.sum((color1 - color2) ** 2))\<close>. With \<open>None\<close> for
  either operand the subtraction raises \<open>TypeError\<close>, which the function catches, and it
  returns \<open>None\<close>. The square root of the 64-bit sum is taken in double precision, which is
  the correctly rounded value of the real square root used here; the comparison with 10
  in \<open>find_similar_objects\<close> has the same outcome for both (\<open>similar_iff\<close> below).
\<close>

definition color_distance :: "color option \<Rightarrow> color option \<Rightarrow> real option" where
  "color_distance color1 color2 =
     (case color1 of
        None \<Rightarrow> None
      | Some c1 \<Rightarrow>
          (case color2 of
             None \<Rightarrow> None
           | Some c2 \<Rightarrow> Some (sqrt (real (np_sum (sq_diff c1 c2))))))"

section \<open>Grouping colours: \<open>find_similar_objects\<close>\<close>

text \<open>
  The value stored under a key of \<open>color_groups\<close> is \<open>{'index': i, 'count': n}\<close>.
  The dictionary keeps insertion order, and the inner loop walks its keys in that order,
  so it is an association list in order of creation.
\<close>

record group_info =
  index :: nat
  count :: nat

type_synonym color_groups = "(color \<times> group_info) list"

text \<open>
  The inner loop \<open>for known_color in color_groups.keys()\<close>. It returns the dictionary
  after the loop together with \<open>found_similar\<close>. When \<open>color_distance\<close> returns \<open>None\<close>,
  the comparison \<open>None < 10\<close> raises \<open>TypeError\<close> and the result is \<open>None\<close>.
\<close>

fun scan_known :: "color option \<Rightarrow> color_groups \<Rightarrow> (color_groups \<times> bool) option" where
  "scan_known color [] = Some ([], False)"
| "scan_known color ((known_color, info) # rest) =
     (case color_distance color (Some known_color) of
        None \<Rightarrow> None
      | Some d \<Rightarrow>
          if d < 10 then Some ((known_color, info\<lparr>count := count info + 1\<rparr>) # rest, True)
          else (case scan_known color rest of
                  None \<Rightarrow> None
                | Some (rest', found_similar) \<Rightarrow>
                    Some ((known_color, info) # rest', found_similar)))"

text \<open>
  The outer loop \<open>for i, color in enumerate(dominant_colors)\<close>, from position \<open>i\<close> on.
  With no similar group, \<open>tuple(color)\<close> is the new key; \<open>tuple(None)\<close> raises
  \<open>TypeError\<close>. Every exception is caught by the function's handler, which returns
  \<open>None\<close>.
\<close>

fun group_loop :: "nat \<Rightarrow> color option list \<Rightarrow> color_groups \<Rightarrow> color_groups option" where
  "group_loop i [] color_groups = Some color_groups"
| "group_loop i (color # colors) color_groups =
     (case scan_known color color_groups of
        None \<Rightarrow> None
      | Some (color_groups', found_similar) \<Rightarrow>
          if found_similar then group_loop (i + 1) colors color_groups'
          else (case color of
                  None \<Rightarrow> None
                | Some c \<Rightarrow>
                    group_loop (i + 1) colors
                      (color_groups' @ [(c, \<lparr>index = i, count = 1\<rparr>)])))"

definition find_similar_objects :: "color option list \<Rightarrow> color_groups option" where
  "find_similar_objects dominant_colors = group_loop 0 dominant_colors []"

section \<open>Floating-point arithmetic\<close>

text \<open>
  The box arithmetic of \<open>extract_bbox_coordinates\<close> runs in binary floating point: IEEE
  binary64 for Python floats, binary32 where the components are \<open>np.float32\<close> and the
  operations stay in that type. A format is its precision in bits and its exponent
  range. A finite float is the real number it denotes; \<open>None\<close> stands for an infinity or
  a NaN, which no operation used here turns back into a finite value.
\<close>

record float_format =
  precision :: nat
  emin :: int
  emax :: int

definition binary32 :: float_format where
  "binary32 = \<lparr>precision = 24, emin = - 126, emax = 127\<rparr>"

definition binary64 :: float_format where
  "binary64 = \<lparr>precision = 53, emin = - 1022, emax = 1023\<rparr>"

definition floor_log2 :: "real \<Rightarrow> int" where
  "floor_log2 x = (if 0 < x then \<lfloor>log 2 x\<rfloor> else 0)"

text \<open>Rounding to the nearest integer, a tie going to the even one.\<close>

definition round_half_even :: "real \<Rightarrow> int" where
  "round_half_even y =
     (if y - of_int \<lfloor>y\<rfloor> < 1 / 2 then \<lfloor>y\<rfloor>
      else if 1 / 2 < y - of_int \<lfloor>y\<rfloor> then \<lfloor>y\<rfloor> + 1
      else if even \<lfloor>y\<rfloor> then \<lfloor>y\<rfloor> else \<lfloor>y\<rfloor> + 1)"

text \<open>
  The spacing of the floats around \<open>x\<close>: the exponent of \<open>x\<close>, not below \<open>emin\<close>
  (the subnormal range), less the fraction bits.
\<close>

definition ulp :: "float_format \<Rightarrow> real \<Rightarrow> real" where
  "ulp fmt x = 2 powi (max (emin fmt) (floor_log2 \<bar>x\<bar>) - (int (precision fmt) - 1))"

text \<open>
  The float an exact result is rounded to (round to nearest, ties to even), or \<open>None\<close>
  when the rounded magnitude leaves the format: overflow to an infinity.
\<close>

definition fl :: "float_format \<Rightarrow> real \<Rightarrow> real option" where
  "fl fmt x =
     (if x = 0 then Some 0
      else (let r = of_int (round_half_even (x / ulp fmt x)) * ulp fmt x
            in if \<bar>r\<bar> < 2 powi (emax fmt + 1) then Some r else None))"

text \<open>
  Subtraction, addition and product of two floats, and the division of a float by the
  integer 2. With an infinity or a NaN among the operands the result is one of them.
\<close>

definition fp_sub :: "float_format \<Rightarrow> real option \<Rightarrow> real option \<Rightarrow> real option" where
  "fp_sub fmt a b =
     (case a of None \<Rightarrow> None | Some x \<Rightarrow> (case b of None \<Rightarrow> None | Some y \<Rightarrow> fl fmt (x - y)))"

definition fp_add :: "float_format \<Rightarrow> real option \<Rightarrow> real option \<Rightarrow> real option" where
  "fp_add fmt a b =
     (case a of None \<Rightarrow> None | Some x \<Rightarrow> (case b of None \<Rightarrow> None | Some y \<Rightarrow> fl fmt (x + y)))"

definition fp_mul :: "float_format \<Rightarrow> real option \<Rightarrow> real option \<Rightarrow> real option" where
  "fp_mul fmt a b =
     (case a of None \<Rightarrow> None | Some x \<Rightarrow> (case b of None \<Rightarrow> None | Some y \<Rightarrow> fl fmt (x * y)))"

definition fp_half :: "float_format \<Rightarrow> real option \<Rightarrow> real option" where
  "fp_half fmt a = (case a of None \<Rightarrow> None | Some x \<Rightarrow> fl fmt (x / 2))"

section \<open>Boxes, crops and dominant colours\<close>

text \<open>
  Python's \<open>int(x)\<close> on a finite float drops the fractional part; on an infinity or a
  NaN it raises \<open>OverflowError\<close> or \<open>ValueError\<close>.
\<close>

definition py_int :: "real \<Rightarrow> int" where
  "py_int x = (if 0 \<le> x then \<lfloor>x\<rfloor> else \<lceil>x\<rceil>)"

definition int_of_float :: "real option \<Rightarrow> int option" where
  "int_of_float a = (case a of None \<Rightarrow> None | Some x \<Rightarrow> Some (py_int x))"

text \<open>
  A component of a box: a finite number, an infinity or NaN, or a value that is not a
  number. Arithmetic on a value that is not a number raises \<open>TypeError\<close>; an infinity or
  NaN goes through the arithmetic and makes \<open>int\<close> raise. In both cases the handler of
  \<open>extract_bbox_coordinates\<close> returns \<open>None\<close>, so \<open>float_of\<close> maps both to \<open>None\<close>.
\<close>

datatype box_value = Num real | Non_Finite | Non_Numeric

definition float_of :: "box_value \<Rightarrow> real option" where
  "float_of v = (case v of Num x \<Rightarrow> Some x | Non_Finite \<Rightarrow> None | Non_Numeric \<Rightarrow> None)"

text \<open>
  \<open>x_center, y_center, width, height = yolo_bbox\<close> raises \<open>ValueError\<close> unless the box
  has exactly four components. The image dimension, an integer, is converted to the
  float format for the product. Every exception ends in the handler, which prints and
  returns \<open>None\<close>.
\<close>

definition extract_bbox_coordinates ::
  "float_format \<Rightarrow> box_value list \<Rightarrow> int \<Rightarrow> int \<Rightarrow> (int \<times> int \<times> int \<times> int) option" where
  "extract_bbox_coordinates fmt yolo_bbox image_width image_height =
     (case yolo_bbox of
        [x_center, y_center, width, height] \<Rightarrow>
          (case (int_of_float (fp_mul fmt (fp_sub fmt (float_of x_center) (fp_half fmt (float_of width)))
                                 (fl fmt (of_int image_width))),
                 int_of_float (fp_mul fmt (fp_sub fmt (float_of y_center) (fp_half fmt (float_of height)))
                                 (fl fmt (of_int image_height))),
                 int_of_float (fp_mul fmt (fp_add fmt (float_of x_center) (fp_half fmt (float_of width)))
                                 (fl fmt (of_int image_width))),
                 int_of_float (fp_mul fmt (fp_add fmt (float_of y_center) (fp_half fmt (float_of height)))
                                 (fl fmt (of_int image_height)))) of
             (Some x1, Some y1, Some x2, Some y2) \<Rightarrow> Some (x1, y1, x2, y2)
           | _ \<Rightarrow> None)
      | _ \<Rightarrow> None)"

text \<open>
  An image is the array \<open>cv2.imread\<close> returns: \<open>image.shape\<close> is
  \<open>(height, width, 3)\<close> and \<open>pixel y x\<close> is the colour at row \<open>y\<close>, column \<open>x\<close>.
\<close>

record image =
  image_height :: nat
  image_width :: nat
  pixel :: "nat \<Rightarrow> nat \<Rightarrow> color"

text \<open>
  NumPy's basic slice \<open>a[lo:hi]\<close> on an axis of length \<open>n\<close>: a negative bound counts
  from the end, and both bounds are clipped to \<open>0..n\<close>. The result is the index range.
\<close>

definition slice_bound :: "int \<Rightarrow> nat \<Rightarrow> nat" where
  "slice_bound v n = (if v < 0 then nat (max 0 (v + int n)) else min (nat v) n)"

definition crop :: "image \<Rightarrow> int \<Rightarrow> int \<Rightarrow> int \<Rightarrow> int \<Rightarrow> color list list" where
  "crop img y1 y2 x1 x2 =
     map (\<lambda>y. map (\<lambda>x. pixel img y x)
                 [slice_bound x1 (image_width img) ..< slice_bound x2 (image_width img)])
         [slice_bound y1 (image_height img) ..< slice_bound y2 (image_height img)]"

text \<open>
  \<open>find_dominant_colors\<close> flattens the region (\<open>reshape(-1, 3)\<close>) and calls
  \<open>cv2.kmeans\<close>, a library outside the repository. The parameter \<open>kmeans\<close> stands for
  that call followed by \<open>np.uint8(centers)\<close>: it takes the pixels and \<open>k\<close> and returns the
  list of centres, or \<open>None\<close> when the library raises. \<open>centers[0]\<close> raises on an empty
  list. Every exception ends in the handler, which returns \<open>None\<close>.
  The library reads a matrix of one row as a row of one-dimensional samples, so for a
  region of exactly one pixel the centre has a single component; such a centre is not a
  colour of this model, and no statement below depends on the value of \<open>kmeans\<close> on a
  region of one pixel.
\<close>

type_synonym kmeans = "color list \<Rightarrow> nat \<Rightarrow> color list option"

definition find_dominant_colors :: "kmeans \<Rightarrow> color list list \<Rightarrow> nat \<Rightarrow> color option" where
  "find_dominant_colors kmeans region k =
     (case kmeans (concat region) k of
        None \<Rightarrow> None
      | Some centers \<Rightarrow> (case centers of [] \<Rightarrow> None | c # _ \<Rightarrow> Some c))"

section \<open>\<open>colors_extracted\<close>\<close>

text \<open>
  A detection is the list \<open>[class_id, x_center, y_center, width, height]\<close>:
  \<open>obj_data[0]\<close> and \<open>obj_data[1:]\<close>.
\<close>

type_synonym detection = "int \<times> box_value list"

text \<open>
  The first loop of \<open>colors_extracted\<close>. Unpacking the \<open>None\<close> that
  \<open>extract_bbox_coordinates\<close> returns on failure raises \<open>TypeError\<close>, which leaves the
  loop for the handler of \<open>colors_extracted\<close>: the result is \<open>None\<close>. The \<open>None\<close> that
  \<open>find_dominant_colors\<close> returns is appended like any colour.
\<close>

fun dominant_loop ::
  "float_format \<Rightarrow> kmeans \<Rightarrow> image \<Rightarrow> detection list \<Rightarrow> color option list option" where
  "dominant_loop fmt kmeans img [] = Some []"
| "dominant_loop fmt kmeans img (obj_data # objects_data) =
     (case extract_bbox_coordinates fmt (snd obj_data) (int (image_width img))
             (int (image_height img)) of
        None \<Rightarrow> None
      | Some (x1, y1, x2, y2) \<Rightarrow>
          (case dominant_loop fmt kmeans img objects_data of
             None \<Rightarrow> None
           | Some dominant_colors \<Rightarrow>
               Some (find_dominant_colors kmeans (crop img y1 y2 x1 x2) 1 # dominant_colors)))"

record color_result =
  class_id :: int
  result_count :: nat
  result_color :: color

text \<open>
  The last loop, over \<open>color_groups.items()\<close>; \<open>objects_data[obj_index]\<close> raises
  \<open>IndexError\<close> out of range.
\<close>

fun compile_results :: "detection list \<Rightarrow> color_groups \<Rightarrow> color_result list option" where
  "compile_results objects_data [] = Some []"
| "compile_results objects_data ((color, info) # rest) =
     (if index info < length objects_data then
        (case compile_results objects_data rest of
           None \<Rightarrow> None
         | Some results \<Rightarrow>
             Some (\<lparr>class_id = fst (objects_data ! index info), result_count = count info,
                    result_color = color\<rparr> # results))
      else None)"

text \<open>
  \<open>find_similar_objects\<close> returning \<open>None\<close> makes \<open>color_groups.items()\<close> raise
  \<open>AttributeError\<close>, caught by the same handler.
\<close>

definition colors_extracted ::
  "float_format \<Rightarrow> kmeans \<Rightarrow> image \<Rightarrow> detection list \<Rightarrow> color_result list option" where
  "colors_extracted fmt kmeans img objects_data =
     (case dominant_loop fmt kmeans img objects_data of
        None \<Rightarrow> None
      | Some dominant_colors \<Rightarrow>
          (case find_similar_objects dominant_colors of
             None \<Rightarrow> None
           | Some color_groups \<Rightarrow> compile_results objects_data color_groups))"

section \<open>\<open>detect_product.py\<close>: names, persistence, pipeline\<close>

record named_result =
  class_name :: string
  named_count :: nat
  named_color :: color

definition replace_class_ids_with_names :: "color_result list \<Rightarrow> (int \<rightharpoonup> string) \<Rightarrow> named_result list" where
  "replace_class_ids_with_names colors_result class_names =
     map (\<lambda>item.
            \<lparr>class_name = (if class_id item \<in> dom class_names
                            then the (class_names (class_id item)) else ''Unknown''),
             named_count = result_count item,
             named_color = result_color item\<rparr>)
         colors_result"

text \<open>
  The store: whether table \<open>colors_results\<close> exists, and its rows
  \<open>(class_name, quantity, color)\<close> in insertion order. The colour is kept as a value
  (the code stores \<open>str(color)\<close>).
\<close>

record database =
  table_exists :: bool
  colors_results :: "(string \<times> nat \<times> color) list"

definition save_to_database :: "named_result list \<Rightarrow> database \<Rightarrow> database" where
  "save_to_database colors_result_with_names db =
     \<lparr>table_exists = True,
      colors_results = colors_results db @
        map (\<lambda>item. (class_name item, named_count item, named_color item))
            colors_result_with_names\<rparr>"

datatype outcome = Completed | Unreadable_Image | Detection_Failed | Processing_Error

text \<open>
  \<open>process_image\<close>, with the results of \<open>cv2.imread\<close> and of \<open>predict_objects\<close> as
  parameters, and the float format of the boxes that \<open>predict_objects\<close> returns. When \<open>colors_extracted\<close> returns \<open>None\<close>, iterating it in
  \<open>replace_class_ids_with_names\<close> raises \<open>TypeError\<close>, which the handler of
  \<open>process_image\<close> reports; the store is not reached.
\<close>

definition process_image ::
  "float_format \<Rightarrow> kmeans \<Rightarrow> image option \<Rightarrow> (detection list \<times> (int \<rightharpoonup> string)) option \<Rightarrow> database
     \<Rightarrow> database \<times> outcome" where
  "process_image fmt kmeans image_read prediction db =
     (case image_read of
        None \<Rightarrow> (db, Unreadable_Image)
      | Some img \<Rightarrow>
          (case prediction of
             None \<Rightarrow> (db, Detection_Failed)
           | Some (boxes, class_names) \<Rightarrow>
               (case colors_extracted fmt kmeans img boxes of
                  None \<Rightarrow> (db, Processing_Error)
                | Some colors_result \<Rightarrow>
                    (save_to_database
                       (replace_class_ids_with_names colors_result class_names) db,
                     Completed))))"

section \<open>Notions used to state the properties\<close>

text \<open>
  The test of the inner loop, \<open>color_distance(color, known_color) < 10\<close>, for two
  colours that are not \<open>None\<close>.
\<close>

definition similar :: "color \<Rightarrow> color \<Rightarrow> bool" where
  "similar c k = (case color_distance (Some c) (Some k) of None \<Rightarrow> False | Some d \<Rightarrow> d < 10)"

text \<open>
  Greedy first match, stated on its own: the position of the first representative,
  in order of creation, that passes the test.
\<close>

fun first_match :: "color \<Rightarrow> color list \<Rightarrow> nat option" where
  "first_match c [] = None"
| "first_match c (k # ks) = (if similar c k then Some 0 else map_option Suc (first_match c ks))"

text \<open>Incrementing the count of one group; its key and index stay.\<close>

definition bump :: "color \<times> group_info \<Rightarrow> color \<times> group_info" where
  "bump e = (fst e, (snd e)\<lparr>count := count (snd e) + 1\<rparr>)"

text \<open>One round of the outer loop for the colour \<open>c\<close> at position \<open>i\<close>.\<close>

definition group_step :: "nat \<Rightarrow> color \<Rightarrow> color_groups \<Rightarrow> color_groups" where
  "group_step i c g =
     (case first_match c (map fst g) of
        None \<Rightarrow> g @ [(c, \<lparr>index = i, count = 1\<rparr>)]
      | Some j \<Rightarrow> g[j := bump (g ! j)])"

text \<open>
  The outer loop on colours that are not \<open>None\<close>, from position \<open>i\<close> on: it cannot
  fail (\<open>group_loop_run\<close> below relates it to \<open>group_loop\<close>).
\<close>

fun run :: "nat \<Rightarrow> color list \<Rightarrow> color_groups \<Rightarrow> color_groups" where
  "run i [] g = g"
| "run i (c # cs) g = run (i + 1) cs (group_step i c g)"

text \<open>
  The group that counts position \<open>i\<close> of the input: the key of the first group that
  passes the test among the groups formed by the positions before \<open>i\<close>, or the colour at
  \<open>i\<close> itself when it founds a group.
\<close>

definition group_of :: "color list \<Rightarrow> nat \<Rightarrow> color" where
  "group_of cs i =
     (case find_similar_objects (map Some (take i cs)) of
        None \<Rightarrow> cs ! i
      | Some g \<Rightarrow>
          (case first_match (cs ! i) (map fst g) of
             None \<Rightarrow> cs ! i
           | Some j \<Rightarrow> fst (g ! j)))"

text \<open>
  The positions counted by the group of key \<open>k\<close>, and the two invariants of the outer
  loop: every count is the number of positions of its group, over distinct keys; and
  every group was founded by the colour at its index.
\<close>

definition members :: "color list \<Rightarrow> color \<Rightarrow> nat set" where
  "members cs k = {i. i < length cs \<and> group_of cs i = k}"

definition counted :: "color list \<Rightarrow> color_groups \<Rightarrow> bool" where
  "counted cs g \<longleftrightarrow>
     distinct (map fst g) \<and>
     (\<forall>i<length cs. group_of cs i \<in> fst ` set g) \<and>
     (\<forall>m<length g. count (snd (g ! m)) = card (members cs (fst (g ! m))))"

definition founded :: "color list \<Rightarrow> color_groups \<Rightarrow> bool" where
  "founded cs g \<longleftrightarrow>
     (\<forall>e\<in>set g. index (snd e) < length cs \<and> cs ! index (snd e) = fst e \<and> 1 \<le> count (snd e))"

text \<open>
  The mathematical Euclidean distance of two colours, over the channel values read as
  integers in \<open>0..255\<close>: no wrap-around.
\<close>

definition channel_diff :: "u8 \<Rightarrow> u8 \<Rightarrow> int" where
  "channel_diff a b = uint a - uint b"

definition euclidean_sq :: "color \<Rightarrow> color \<Rightarrow> int" where
  "euclidean_sq c1 c2 =
     (case c1 of (a1, a2, a3) \<Rightarrow> case c2 of (b1, b2, b3) \<Rightarrow>
        (channel_diff a1 b1)\<^sup>2 + (channel_diff a2 b2)\<^sup>2 + (channel_diff a3 b3)\<^sup>2)"

definition euclidean_distance :: "color \<Rightarrow> color \<Rightarrow> real" where
  "euclidean_distance c1 c2 = sqrt (of_int (euclidean_sq c1 c2))"

text \<open>
  Truncation toward zero: the integer part of the magnitude, with the sign of the
  number.
\<close>

definition trunc_toward_zero :: "real \<Rightarrow> int" where
  "trunc_toward_zero r = (if r < 0 then - \<lfloor>\<bar>r\<bar>\<rfloor> else \<lfloor>\<bar>r\<bar>\<rfloor>)"

text \<open>
  An exact result that the format holds: rounding leaves it as it is. The operations
  of one axis of the box (centre \<open>c\<close>, extent \<open>e\<close>, image dimension \<open>d\<close>) are exact when
  each of their exact results is such a value.
\<close>

definition exact :: "float_format \<Rightarrow> real \<Rightarrow> bool" where
  "exact fmt x \<longleftrightarrow> fl fmt x = Some x"

definition exact_axis :: "float_format \<Rightarrow> real \<Rightarrow> real \<Rightarrow> int \<Rightarrow> bool" where
  "exact_axis fmt c e d \<longleftrightarrow>
     exact fmt (e / 2) \<and> exact fmt (c - e / 2) \<and> exact fmt (c + e / 2) \<and>
     exact fmt (of_int d) \<and>
     exact fmt ((c - e / 2) * of_int d) \<and> exact fmt ((c + e / 2) * of_int d)"

text \<open>The double nearest to the decimal 0.3.\<close>

definition double_0_3 :: real where
  "double_0_3 = 5404319552844595 / 2 ^ 54"

text \<open>
  The clustering call on the two regions of the worked examples: the library raises
  on a region without pixels, and for four pixels of the colour \<open>(255, 0, 0)\<close> its only
  centre is the float32 mean \<open>1020 * 0.25 = 255\<close> in the first channel and 0 in the
  others. No other region occurs in the examples, and the value given for one is not
  the library's.
\<close>

definition kmeans_example :: kmeans where
  "kmeans_example pixels k =
     (if k = 1 \<and> pixels = replicate 4 (255, 0, 0) then Some [(255, 0, 0)] else None)"

text \<open>A 4 by 4 image of one colour.\<close>

definition example_image :: image where
  "example_image = \<lparr>image_height = 4, image_width = 4, pixel = (\<lambda>y x. (255, 0, 0))\<rparr>"

section \<open>The threshold test and the inner loop\<close>

lemma similar_iff: "(sqrt (real n) < 10) = (n < 100)"
proof -
  have "sqrt (real n) < sqrt 100 \<longleftrightarrow> real n < 100" by (rule real_sqrt_less_iff)
  moreover have "sqrt 100 = (10::real)" by (rule real_sqrt_unique) simp_all
  ultimately show ?thesis by simp
qed

lemma similar_code [code]: "similar c k = (np_sum (sq_diff c k) < 100)"
  by (simp add: similar_def color_distance_def similar_iff)

lemma similar_refl: "similar c c"
  by (cases c) (simp add: similar_code sq_diff_def np_sum_def)

lemma scan_known_code [code]:
  "scan_known color [] = Some ([], False)"
  "scan_known color ((known_color, info) # rest) =
     (case color of
        None \<Rightarrow> None
      | Some c \<Rightarrow>
          if similar c known_color
          then Some ((known_color, info\<lparr>count := count info + 1\<rparr>) # rest, True)
          else (case scan_known color rest of
                  None \<Rightarrow> None
                | Some (rest', found_similar) \<Rightarrow>
                    Some ((known_color, info) # rest', found_similar)))"
  by (simp_all add: similar_def color_distance_def split: option.splits)

lemma first_match_Some_iff:
  "first_match c ks = Some j \<longleftrightarrow>
     j < length ks \<and> similar c (ks ! j) \<and> (\<forall>j'<j. \<not> similar c (ks ! j'))"
proof (induction ks arbitrary: j)
  case Nil
  show ?case by simp
next
  case (Cons k ks)
  show ?case
  proof (cases "similar c k")
    case True
    then show ?thesis by (cases j) auto
  next
    case False
    show ?thesis
    proof (cases j)
      case 0
      with False show ?thesis by auto
    next
      case (Suc m)
      have "(\<forall>j'<Suc m. \<not> similar c ((k # ks) ! j')) \<longleftrightarrow> (\<forall>j'<m. \<not> similar c (ks ! j'))"
        using False by (auto simp: less_Suc_eq_0_disj)
      with False Suc Cons.IH [of m] show ?thesis by auto
    qed
  qed
qed

lemma first_match_None_iff:
  "first_match c ks = None \<longleftrightarrow> (\<forall>k\<in>set ks. \<not> similar c k)"
  by (induction ks) auto

lemma scan_known_first_match:
  "scan_known (Some c) g =
     Some (case first_match c (map fst g) of
             None \<Rightarrow> (g, False)
           | Some j \<Rightarrow> (g[j := bump (g ! j)], True))"
proof (induction g)
  case Nil
  show ?case by simp
next
  case (Cons e g)
  obtain k info where e: "e = (k, info)" by (cases e)
  show ?case
  proof (cases "similar c k")
    case True
    then show ?thesis by (simp add: e scan_known_code bump_def del: scan_known.simps)
  next
    case False
    then show ?thesis
      using Cons.IH by (simp add: e scan_known_code del: scan_known.simps split: option.splits)
  qed
qed

lemma group_loop_run: "group_loop i (map Some cs) g = Some (run i cs g)"
proof (induction cs arbitrary: i g)
  case Nil
  show ?case by simp
next
  case (Cons c cs)
  show ?case
    by (simp add: scan_known_first_match group_step_def Cons.IH split: option.splits)
qed

lemma run_snoc: "run i (cs @ [c]) g = group_step (i + length cs) c (run i cs g)"
  by (induction cs arbitrary: i g) simp_all

lemma find_similar_objects_run:
  "find_similar_objects (map Some cs) = Some (run 0 cs [])"
  by (simp add: find_similar_objects_def group_loop_run)

lemma group_loop_None:
  "None \<in> set cs \<Longrightarrow> group_loop i cs g = None"
proof (induction cs arbitrary: i g)
  case Nil
  then show ?case by simp
next
  case (Cons c cs)
  show ?case
  proof (cases c)
    case None
    show ?thesis
    proof (cases g)
      case Nil
      with None show ?thesis by simp
    next
      case (Cons e g')
      with None show ?thesis by (cases e) (simp add: color_distance_def)
    qed
  next
    case (Some col)
    with Cons.prems have "None \<in> set cs" by simp
    then show ?thesis
      by (simp add: Cons.IH split: option.splits)
  qed
qed

section \<open>Invariants of the outer loop\<close>

lemma first_match_less: "first_match c ks = Some j \<Longrightarrow> j < length ks"
  by (simp add: first_match_Some_iff)

lemma fst_bump [simp]: "fst (bump e) = fst e"
  by (simp add: bump_def)

lemma keys_group_step:
  "map fst (group_step i c g) =
     (case first_match c (map fst g) of None \<Rightarrow> map fst g @ [c] | Some j \<Rightarrow> map fst g)"
proof (cases "first_match c (map fst g)")
  case None
  then show ?thesis by (simp add: group_step_def)
next
  case (Some j)
  then have "j < length g" using first_match_less by fastforce
  then have "map fst (g[j := bump (g ! j)]) = map fst g"
    by (simp add: map_update list_update_same_conv)
  with Some show ?thesis by (simp add: group_step_def)
qed

lemma new_key_fresh: "first_match c ks = None \<Longrightarrow> c \<notin> set ks"
  using similar_refl [of c] by (auto simp: first_match_None_iff)

lemma distinct_group_step:
  "distinct (map fst g) \<Longrightarrow> distinct (map fst (group_step i c g))"
  using new_key_fresh [of c "map fst g"]
  by (simp add: keys_group_step split: option.splits)

lemma distinct_run: "distinct (map fst g) \<Longrightarrow> distinct (map fst (run i cs g))"
  by (induction cs arbitrary: i g) (simp_all add: distinct_group_step)

lemma total_group_step:
  "sum_list (map (count \<circ> snd) (group_step i c g)) = Suc (sum_list (map (count \<circ> snd) g))"
proof (cases "first_match c (map fst g)")
  case None
  then show ?thesis by (simp add: group_step_def)
next
  case (Some j)
  then have j: "j < length g" using first_match_less by fastforce
  have "map (count \<circ> snd) (g[j := bump (g ! j)]) =
        (map (count \<circ> snd) g)[j := Suc (count (snd (g ! j)))]"
    by (simp add: map_update bump_def)
  moreover have "sum_list ((map (count \<circ> snd) g)[j := Suc (count (snd (g ! j)))]) =
        sum_list (map (count \<circ> snd) g) + Suc (count (snd (g ! j))) - map (count \<circ> snd) g ! j"
    using j by (simp add: sum_list_update)
  moreover have "map (count \<circ> snd) g ! j = count (snd (g ! j))"
    using j by simp
  ultimately show ?thesis using Some by (simp add: group_step_def)
qed

lemma total_run:
  "sum_list (map (count \<circ> snd) (run i cs g)) = length cs + sum_list (map (count \<circ> snd) g)"
  by (induction cs arbitrary: i g) (simp_all add: total_group_step)

lemma founded_group_step:
  assumes "founded cs g"
  shows "founded (cs @ [c]) (group_step (length cs) c g)"
proof (cases "first_match c (map fst g)")
  case None
  with assms show ?thesis
    by (auto simp: founded_def group_step_def nth_append)
next
  case (Some j)
  then have j: "j < length g" using first_match_less by fastforce
  have "index (snd e) < length (cs @ [c]) \<and> (cs @ [c]) ! index (snd e) = fst e \<and> 1 \<le> count (snd e)"
    if "e \<in> set (g[j := bump (g ! j)])" for e
  proof -
    from that have "e = bump (g ! j) \<or> e \<in> set g"
      using set_update_subset_insert by fastforce
    moreover have "g ! j \<in> set g" using j by simp
    ultimately show ?thesis
      using assms by (auto simp: founded_def bump_def nth_append)
  qed
  with Some show ?thesis by (simp add: founded_def group_step_def)
qed

lemma founded_run: "founded cs (run 0 cs [])"
proof (induction cs rule: rev_induct)
  case Nil
  show ?case by (simp add: founded_def)
next
  case (snoc c cs)
  then show ?case using founded_group_step [of cs "run 0 cs []" c] by (simp add: run_snoc)
qed

lemma group_of_run:
  "group_of cs i =
     (case first_match (cs ! i) (map fst (run 0 (take i cs) [])) of
        None \<Rightarrow> cs ! i
      | Some j \<Rightarrow> fst (run 0 (take i cs) [] ! j))"
  by (simp add: group_of_def find_similar_objects_run)

lemma group_of_snoc_old: "i < length cs \<Longrightarrow> group_of (cs @ [c]) i = group_of cs i"
  by (simp add: group_of_run nth_append split: option.splits)

lemma group_of_snoc_new:
  "group_of (cs @ [c]) (length cs) =
     (case first_match c (map fst (run 0 cs [])) of
        None \<Rightarrow> c
      | Some j \<Rightarrow> fst (run 0 cs [] ! j))"
  by (simp add: group_of_run split: option.splits)

lemma finite_members [simp]: "finite (members cs k)"
  by (simp add: members_def)

lemma members_snoc:
  "members (cs @ [c]) k =
     members cs k \<union> (if group_of (cs @ [c]) (length cs) = k then {length cs} else {})"
  by (auto simp: members_def less_Suc_eq group_of_snoc_old)

lemma length_not_member: "length cs \<notin> members cs k"
  by (simp add: members_def)

lemma card_members_snoc:
  "card (members (cs @ [c]) k) =
     card (members cs k) + (if group_of (cs @ [c]) (length cs) = k then 1 else 0)"
  by (simp add: members_snoc length_not_member)

lemma counted_step:
  assumes inv: "counted cs g" and g: "g = run 0 cs []"
  shows "counted (cs @ [c]) (group_step (length cs) c g)"
proof (cases "first_match c (map fst g)")
  case None
  let ?g' = "g @ [(c, \<lparr>index = length cs, count = 1\<rparr>)]"
  have step: "group_step (length cs) c g = ?g'"
    using None by (simp add: group_step_def)
  have new: "group_of (cs @ [c]) (length cs) = c"
    using None by (simp add: group_of_snoc_new g)
  have fresh: "c \<notin> fst ` set g"
    using new_key_fresh [OF None] by simp
  have d: "distinct (map fst ?g')"
    using inv fresh by (simp add: counted_def)
  have k: "\<forall>i<length (cs @ [c]). group_of (cs @ [c]) i \<in> fst ` set ?g'"
    using inv new by (auto simp: counted_def less_Suc_eq group_of_snoc_old)
  have empty: "members cs c = {}"
    using inv fresh by (auto simp: counted_def members_def)
  have n: "count (snd (?g' ! m)) = card (members (cs @ [c]) (fst (?g' ! m)))"
    if "m < length ?g'" for m
  proof (cases "m < length g")
    case True
    then have "fst (g ! m) \<noteq> c" using fresh by (metis image_eqI nth_mem)
    with True inv show ?thesis
      by (simp add: counted_def nth_append card_members_snoc new)
  next
    case False
    with that have "m = length g" by simp
    then show ?thesis by (simp add: card_members_snoc new empty)
  qed
  show ?thesis unfolding step counted_def using d k n by blast
next
  case (Some j)
  then have j: "j < length g" using first_match_less by fastforce
  let ?g' = "g[j := bump (g ! j)]"
  have step: "group_step (length cs) c g = ?g'"
    using Some by (simp add: group_step_def)
  have keys: "map fst ?g' = map fst g"
    using keys_group_step [of "length cs" c g] Some step by simp
  then have keys_set: "fst ` set ?g' = fst ` set g"
    by (metis list.set_map)
  have new: "group_of (cs @ [c]) (length cs) = fst (g ! j)"
    using Some by (simp add: group_of_snoc_new g)
  have d: "distinct (map fst ?g')"
    using inv keys by (simp add: counted_def)
  have "fst (g ! j) \<in> fst ` set g" using j by simp
  then have k: "\<forall>i<length (cs @ [c]). group_of (cs @ [c]) i \<in> fst ` set ?g'"
    using inv new keys_set by (auto simp: counted_def less_Suc_eq group_of_snoc_old)
  have n: "count (snd (?g' ! m)) = card (members (cs @ [c]) (fst (?g' ! m)))"
    if "m < length ?g'" for m
  proof (cases "m = j")
    case True
    with j inv show ?thesis
      by (simp add: counted_def card_members_snoc new bump_def)
  next
    case False
    from that have m: "m < length g" by simp
    have "distinct (map fst g)" using inv by (simp add: counted_def)
    then have "fst (g ! m) \<noteq> fst (g ! j)"
      using False m j by (metis length_map nth_eq_iff_index_eq nth_map)
    with False m inv show ?thesis
      by (simp add: counted_def card_members_snoc new)
  qed
  show ?thesis unfolding step counted_def using d k n by blast
qed

lemma counted_run: "counted cs (run 0 cs [])"
proof (induction cs rule: rev_induct)
  case Nil
  show ?case by (simp add: counted_def)
next
  case (snoc c cs)
  then show ?case using counted_step [of cs "run 0 cs []" c] by (simp add: run_snoc)
qed

section \<open>Results of \<open>colors_extracted\<close> and worked examples\<close>

lemma compile_results_Some:
  "\<forall>e\<in>set g. index (snd e) < length objects_data \<Longrightarrow>
   compile_results objects_data g =
     Some (map (\<lambda>e. \<lparr>class_id = fst (objects_data ! index (snd e)),
                      result_count = count (snd e), result_color = fst e\<rparr>) g)"
proof (induction g)
  case Nil
  show ?case by simp
next
  case (Cons e g)
  then show ?case by (cases e) simp
qed

lemma example_groups:
  "find_similar_objects (map Some [(0, 0, 0), (20, 0, 0), (21, 0, 0)]) =
     Some [((0, 0, 0), \<lparr>index = 0, count = 1\<rparr>), ((20, 0, 0), \<lparr>index = 1, count = 2\<rparr>)]"
  by code_simp

section \<open>The colour distance and the Euclidean distance\<close>

lemma sq_diff_commute: "sq_diff c1 c2 = sq_diff c2 c1"
proof -
  have "(a - b) * (a - b) = (b - a) * (b - a)" for a b :: u8
    by (simp add: algebra_simps)
  then show ?thesis
    by (simp add: sq_diff_def split: prod.splits)
qed

lemma color_distance_commute:
  "color_distance (Some c1) (Some c2) = color_distance (Some c2) (Some c1)"
  by (simp add: color_distance_def sq_diff_commute [of c1 c2])

lemma small_square:
  fixes d :: int
  assumes "d\<^sup>2 \<le> 100"
  shows "\<bar>d\<bar> \<le> 10"
proof (rule ccontr)
  assume "\<not> \<bar>d\<bar> \<le> 10"
  then have "11 \<le> \<bar>d\<bar>" by simp
  then have "11 * 11 \<le> \<bar>d\<bar> * \<bar>d\<bar>" by (intro mult_mono) simp_all
  also have "\<bar>d\<bar> * \<bar>d\<bar> = d\<^sup>2" by (simp add: power2_eq_square abs_mult_self_eq)
  finally show False using assms by simp
qed

lemma square_bound:
  fixes d :: int
  assumes "\<bar>d\<bar> \<le> 15"
  shows "d\<^sup>2 \<le> 225"
proof -
  have "\<bar>d\<bar> * \<bar>d\<bar> \<le> 15 * 15" using assms by (intro mult_mono) simp_all
  then show ?thesis by (simp add: power2_eq_square abs_mult_self_eq)
qed

lemma channel_square_exact:
  fixes a b :: u8
  assumes "\<bar>channel_diff a b\<bar> \<le> 15"
  shows "int (unat ((a - b) * (a - b))) = (channel_diff a b)\<^sup>2"
proof -
  let ?d = "uint a - uint b"
  have "uint ((a - b) * (a - b)) = (?d mod 256) * (?d mod 256) mod 256"
    by (simp add: uint_word_ariths)
  also have "\<dots> = ?d * ?d mod 256"
    by (simp add: mod_mult_eq)
  also have "\<dots> = ?d * ?d"
  proof -
    have "?d\<^sup>2 \<le> 225" using assms square_bound by (simp add: channel_diff_def)
    then have "?d * ?d < 256" by (simp add: power2_eq_square)
    moreover have "0 \<le> ?d * ?d" by simp
    ultimately show ?thesis by simp
  qed
  finally show ?thesis by (simp add: channel_diff_def power2_eq_square)
qed

lemma np_sum_exact:
  assumes "euclidean_sq c1 c2 \<le> 100"
  shows "int (np_sum (sq_diff c1 c2)) = euclidean_sq c1 c2"
proof -
  obtain a1 a2 a3 where c1: "c1 = (a1, a2, a3)" by (cases c1)
  obtain b1 b2 b3 where c2: "c2 = (b1, b2, b3)" by (cases c2)
  have nn: "0 \<le> (channel_diff x y)\<^sup>2" for x y by simp
  from assms have s: "(channel_diff a1 b1)\<^sup>2 + (channel_diff a2 b2)\<^sup>2 + (channel_diff a3 b3)\<^sup>2 \<le> 100"
    by (simp add: euclidean_sq_def c1 c2)
  have "(channel_diff a1 b1)\<^sup>2 \<le> 100"
    using s nn [of a2 b2] nn [of a3 b3] by linarith
  then have d1: "\<bar>channel_diff a1 b1\<bar> \<le> 15" using small_square by fastforce
  have "(channel_diff a2 b2)\<^sup>2 \<le> 100"
    using s nn [of a1 b1] nn [of a3 b3] by linarith
  then have d2: "\<bar>channel_diff a2 b2\<bar> \<le> 15" using small_square by fastforce
  have "(channel_diff a3 b3)\<^sup>2 \<le> 100"
    using s nn [of a1 b1] nn [of a2 b2] by linarith
  then have d3: "\<bar>channel_diff a3 b3\<bar> \<le> 15" using small_square by fastforce
  show ?thesis
    using channel_square_exact [OF d1] channel_square_exact [OF d2] channel_square_exact [OF d3]
    by (simp add: np_sum_def sq_diff_def euclidean_sq_def c1 c2)
qed

lemma euclidean_sq_nonneg: "0 \<le> euclidean_sq c1 c2"
  by (simp add: euclidean_sq_def split: prod.splits)

lemma euclidean_lt_iff: "euclidean_distance c1 c2 < 10 \<longleftrightarrow> euclidean_sq c1 c2 < 100"
proof -
  have "sqrt (of_int (euclidean_sq c1 c2)) < sqrt 100 \<longleftrightarrow> (of_int (euclidean_sq c1 c2) :: real) < 100"
    by (rule real_sqrt_less_iff)
  moreover have "sqrt 100 = (10::real)" by (rule real_sqrt_unique) simp_all
  ultimately show ?thesis by (simp add: euclidean_distance_def)
qed

lemma euclidean_eq_iff: "euclidean_distance c1 c2 = 10 \<longleftrightarrow> euclidean_sq c1 c2 = 100"
proof -
  have "sqrt (of_int (euclidean_sq c1 c2)) = sqrt 100 \<longleftrightarrow> (of_int (euclidean_sq c1 c2) :: real) = 100"
    by (rule real_sqrt_eq_iff)
  moreover have "sqrt 100 = (10::real)" by (rule real_sqrt_unique) simp_all
  ultimately show ?thesis by (simp add: euclidean_distance_def)
qed

lemma similar_of_close: "euclidean_distance c k < 10 \<Longrightarrow> similar c k"
  using np_sum_exact [of c k] by (simp add: euclidean_lt_iff similar_code)

lemma not_similar_at_ten: "euclidean_distance c k = 10 \<Longrightarrow> \<not> similar c k"
  using np_sum_exact [of c k] by (simp add: euclidean_eq_iff similar_code)

lemma color_distance_exact:
  "euclidean_distance c1 c2 \<le> 10 \<Longrightarrow> color_distance (Some c1) (Some c2) = Some (euclidean_distance c1 c2)"
proof -
  assume "euclidean_distance c1 c2 \<le> 10"
  then have "euclidean_sq c1 c2 \<le> 100"
    using euclidean_lt_iff [of c1 c2] euclidean_eq_iff [of c1 c2] by auto
  then have "int (np_sum (sq_diff c1 c2)) = euclidean_sq c1 c2" by (rule np_sum_exact)
  then have "real (np_sum (sq_diff c1 c2)) = of_int (euclidean_sq c1 c2)"
    by (metis of_int_of_nat_eq)
  then show ?thesis by (simp add: color_distance_def euclidean_distance_def)
qed

section \<open>One round of the outer loop\<close>

lemma first_match_keys_Some:
  assumes "j < length g" "similar c (fst (g ! j))" "\<forall>j'<j. \<not> similar c (fst (g ! j'))"
  shows "first_match c (map fst g) = Some j"
  using assms by (simp add: first_match_Some_iff)

lemma first_match_keys_None:
  assumes "\<forall>j<length g. \<not> similar c (fst (g ! j))"
  shows "first_match c (map fst g) = None"
proof -
  have "\<not> similar c k" if "k \<in> set (map fst g)" for k
  proof -
    from that obtain j where "j < length g" "k = fst (g ! j)"
      by (auto simp: in_set_conv_nth)
    with assms show ?thesis by simp
  qed
  then show ?thesis by (simp only: first_match_None_iff) blast
qed

lemma find_similar_objects_snoc:
  "find_similar_objects (map Some (cs @ [c])) = Some (group_step (length cs) c (run 0 cs []))"
  using find_similar_objects_run [of "cs @ [c]"] by (simp add: run_snoc)

lemma group_step_keeps:
  "length g \<le> length (group_step i c g) \<and>
   (\<forall>j<length g. fst (group_step i c g ! j) = fst (g ! j) \<and>
                  index (snd (group_step i c g ! j)) = index (snd (g ! j)))"
proof (cases "first_match c (map fst g)")
  case None
  then show ?thesis by (simp add: group_step_def nth_append)
next
  case (Some m)
  have "fst (g[m := bump (g ! m)] ! j) = fst (g ! j) \<and>
        index (snd (g[m := bump (g ! m)] ! j)) = index (snd (g ! j))"
    if "j < length g" for j
    using that by (cases "j = m") (simp_all add: bump_def)
  with Some show ?thesis by (simp add: group_step_def)
qed

section \<open>Evaluating the rounding\<close>

lemma floor_log2_ge_one:
  assumes "1 \<le> x"
  shows "\<lfloor>log 2 x\<rfloor> = bitlen \<lfloor>x\<rfloor> - 1"
proof -
  let ?n = "\<lfloor>x\<rfloor>"
  let ?k = "bitlen ?n - 1"
  have n: "0 < ?n" using assms by simp
  then have k: "0 \<le> ?k" by (simp add: bitlen_alt_def)
  from bitlen_bounds [OF n] have lo: "2 ^ nat ?k \<le> ?n" and hi: "?n < 2 ^ nat (bitlen ?n)"
    by simp_all
  have "real_of_int (2 ^ nat ?k) \<le> real_of_int ?n" using lo by (simp only: of_int_le_iff)
  moreover have "real_of_int ?n \<le> x" by (rule of_int_floor_le)
  moreover have "real_of_int (2 ^ nat ?k) = 2 ^ nat ?k" by simp
  ultimately have lo': "2 ^ nat ?k \<le> x" by linarith
  have "?n + 1 \<le> 2 ^ nat (bitlen ?n)" using hi by simp
  then have "real_of_int (?n + 1) \<le> real_of_int (2 ^ nat (bitlen ?n))"
    by (simp only: of_int_le_iff)
  moreover have "x < real_of_int (?n + 1)" by simp
  moreover have "real_of_int (2 ^ nat (bitlen ?n)) = 2 ^ nat (bitlen ?n)" by simp
  ultimately have hi': "x < 2 ^ nat (bitlen ?n)" by linarith
  have e: "nat (?k + 1) = nat (bitlen ?n)" by simp
  have p1: "2 powr real_of_int ?k = (2::real) ^ nat ?k"
    using k by (subst powr_real_of_int) simp_all
  have p2: "2 powr real_of_int (?k + 1) = (2::real) ^ nat (bitlen ?n)"
    using k by (subst powr_real_of_int) simp_all
  have "2 powr real_of_int ?k \<le> x \<and> x < 2 powr (real_of_int ?k + 1)"
    using lo' hi' p1 p2 by (simp only: of_int_add of_int_1)
  moreover have "0 < x" using assms by simp
  ultimately show ?thesis
    using floor_log_eq_powr_iff [of x 2 ?k] by force
qed

lemma floor_log2_lt_one:
  assumes "0 < x" "x < 1"
  shows "\<lfloor>log 2 x\<rfloor> = - bitlen (\<lceil>1 / x\<rceil> - 1)"
proof -
  let ?y = "1 / x"
  let ?n = "\<lceil>?y\<rceil> - 1"
  let ?b = "bitlen ?n"
  have y: "1 < ?y" using assms by simp
  then have "1 < \<lceil>?y\<rceil>" by (simp add: less_ceiling_iff)
  then have n: "0 < ?n" by simp
  then have b: "1 \<le> ?b" by (simp add: bitlen_alt_def)
  from bitlen_bounds [OF n] have lo: "2 ^ nat (?b - 1) \<le> ?n" and hi: "?n < 2 ^ nat ?b"
    by simp_all
  have "real_of_int (2 ^ nat (?b - 1)) \<le> real_of_int ?n" using lo by (simp only: of_int_le_iff)
  moreover have "real_of_int ?n < ?y" using ceiling_correct [of ?y] by simp
  moreover have "real_of_int (2 ^ nat (?b - 1)) = 2 ^ nat (?b - 1)" by simp
  ultimately have lo': "2 ^ nat (?b - 1) < ?y" by linarith
  have "\<lceil>?y\<rceil> \<le> 2 ^ nat ?b" using hi by simp
  then have "real_of_int \<lceil>?y\<rceil> \<le> real_of_int (2 ^ nat ?b)" by (simp only: of_int_le_iff)
  moreover have "?y \<le> real_of_int \<lceil>?y\<rceil>" by (rule le_of_int_ceiling)
  moreover have "real_of_int (2 ^ nat ?b) = 2 ^ nat ?b" by simp
  ultimately have hi': "?y \<le> 2 ^ nat ?b" by linarith
  have x_lo: "1 / 2 ^ nat ?b \<le> x"
  proof -
    have "1 \<le> x * 2 ^ nat ?b" using hi' assms(1) by (simp add: field_simps)
    then show ?thesis by (simp add: field_simps)
  qed
  have x_hi: "x < 1 / 2 ^ nat (?b - 1)"
  proof -
    have "x * 2 ^ nat (?b - 1) < 1" using lo' assms(1) by (simp add: field_simps)
    then show ?thesis by (simp add: field_simps)
  qed
  have p1: "2 powr real_of_int (- ?b) = 1 / (2::real) ^ nat ?b"
    using b by (subst powr_real_of_int) (simp_all add: inverse_eq_divide)
  have p2: "2 powr real_of_int (- ?b + 1) = 1 / (2::real) ^ nat (?b - 1)"
  proof (cases "?b = 1")
    case True
    then show ?thesis by simp
  next
    case False
    with b have "\<not> 0 \<le> - ?b + 1" by simp
    moreover have "nat (- (- ?b + 1)) = nat (?b - 1)" by simp
    ultimately show ?thesis by (subst powr_real_of_int) (simp_all add: inverse_eq_divide)
  qed
  have "2 powr real_of_int (- ?b) \<le> x \<and> x < 2 powr real_of_int (- ?b + 1)"
    unfolding p1 p2 using x_lo x_hi by (rule conjI)
  moreover have "(1::real) < 2" by simp
  ultimately show ?thesis
    using floor_log_eq_powr_iff [of x 2 "- ?b"] assms(1) by blast
qed

lemma floor_log2_code [code]:
  "floor_log2 x =
     (if 1 \<le> x then bitlen \<lfloor>x\<rfloor> - 1
      else if 0 < x then - bitlen (\<lceil>1 / x\<rceil> - 1)
      else 0)"
  using floor_log2_ge_one [of x] floor_log2_lt_one [of x] by (simp add: floor_log2_def)

lemma floor_log2_eqI:
  assumes "2 powi e \<le> x" "x < 2 powi (e + 1)"
  shows "floor_log2 x = e"
proof -
  have "(0::real) < 2 powi e" by simp
  with assms(1) have pos: "0 < x" by linarith
  have "2 powr real_of_int e = (2::real) powi e"
    by (rule powr_real_of_int') simp_all
  moreover have "2 powr real_of_int (e + 1) = (2::real) powi (e + 1)"
    by (rule powr_real_of_int') simp_all
  ultimately have "2 powr real_of_int e \<le> x \<and> x < 2 powr real_of_int (e + 1)"
    using assms by (simp only:)
  moreover have "(1::real) < 2" by simp
  ultimately have "\<lfloor>log 2 x\<rfloor> = e"
    using floor_log_eq_powr_iff [of x 2 e] pos by blast
  with pos show ?thesis by (simp add: floor_log2_def)
qed

lemma round_half_even_int [simp]: "round_half_even (of_int n) = n"
  by (simp add: round_half_even_def)

lemma fl_eval:
  assumes "2 powi e \<le> \<bar>x\<bar>" "\<bar>x\<bar> < 2 powi (e + 1)" "emin fmt \<le> e"
  shows "fl fmt x =
     (let u = 2 powi (e - (int (precision fmt) - 1));
          r = of_int (round_half_even (x / u)) * u
      in if \<bar>r\<bar> < 2 powi (emax fmt + 1) then Some r else None)"
proof -
  have "(0::real) < 2 powi e" by simp
  with assms(1) have "0 < \<bar>x\<bar>" by linarith
  then have nz: "x \<noteq> 0" by simp
  have "floor_log2 \<bar>x\<bar> = e" using assms(1,2) by (rule floor_log2_eqI)
  with assms(3) have "ulp fmt x = 2 powi (e - (int (precision fmt) - 1))"
    by (simp add: ulp_def max_def)
  with nz show ?thesis by (simp add: fl_def Let_def)
qed

lemma fl_binary32_values:
  "fl binary32 (1 / 2) = Some (1 / 2)"
  "fl binary32 (1 / 4) = Some (1 / 4)"
  "fl binary32 (3 / 4) = Some (3 / 4)"
  "fl binary32 (4) = Some (4)"
  "fl binary32 (2) = Some (2)"
  "fl binary32 (1) = Some (1)"
  "fl binary32 (3) = Some (3)"
  "fl binary32 (100) = Some (100)"
  "fl binary32 (25) = Some (25)"
  "fl binary32 (75) = Some (75)"
  "fl binary32 (15 / 32) = Some (15 / 32)"
  "fl binary32 (10) = Some (10)"
  "fl binary32 (75 / 16) = Some (75 / 16)"
  "fl binary32 (- (1 / 8)) = Some (- (1 / 8))"
  "fl binary32 (3 / 8) = Some (3 / 8)"
  "fl binary32 (- (5 / 4)) = Some (- (5 / 4))"
  "fl binary32 (15 / 4) = Some (15 / 4)"
  "fl binary32 (1 / 8) = Some (1 / 8)"
  subgoal using fl_eval [of "- 1" "1 / 2" binary32]
    by (simp add: binary32_def round_half_even_def Let_def)
  subgoal using fl_eval [of "- 2" "1 / 4" binary32]
    by (simp add: binary32_def round_half_even_def Let_def)
  subgoal using fl_eval [of "- 1" "3 / 4" binary32]
    by (simp add: binary32_def round_half_even_def Let_def)
  subgoal using fl_eval [of "2" "4" binary32]
    by (simp add: binary32_def round_half_even_def Let_def)
  subgoal using fl_eval [of "1" "2" binary32]
    by (simp add: binary32_def round_half_even_def Let_def)
  subgoal using fl_eval [of "0" "1" binary32]
    by (simp add: binary32_def round_half_even_def Let_def)
  subgoal using fl_eval [of "1" "3" binary32]
    by (simp add: binary32_def round_half_even_def Let_def)
  subgoal using fl_eval [of "6" "100" binary32]
    by (simp add: binary32_def round_half_even_def Let_def)
  subgoal using fl_eval [of "4" "25" binary32]
    by (simp add: binary32_def round_half_even_def Let_def)
  subgoal using fl_eval [of "6" "75" binary32]
    by (simp add: binary32_def round_half_even_def Let_def)
  subgoal using fl_eval [of "- 2" "15 / 32" binary32]
    by (simp add: binary32_def round_half_even_def Let_def)
  subgoal using fl_eval [of "3" "10" binary32]
    by (simp add: binary32_def round_half_even_def Let_def)
  subgoal using fl_eval [of "2" "75 / 16" binary32]
    by (simp add: binary32_def round_half_even_def Let_def)
  subgoal using fl_eval [of "- 3" "- (1 / 8)" binary32]
    by (simp add: binary32_def round_half_even_def Let_def)
  subgoal using fl_eval [of "- 2" "3 / 8" binary32]
    by (simp add: binary32_def round_half_even_def Let_def)
  subgoal using fl_eval [of "0" "- (5 / 4)" binary32]
    by (simp add: binary32_def round_half_even_def Let_def)
  subgoal using fl_eval [of "1" "15 / 4" binary32]
    by (simp add: binary32_def round_half_even_def Let_def)
  subgoal using fl_eval [of "- 3" "1 / 8" binary32]
    by (simp add: binary32_def round_half_even_def Let_def)
  done

lemma fl_binary64_values:
  "fl binary64 (1 / 2) = Some (1 / 2)"
  "fl binary64 (1 / 4) = Some (1 / 4)"
  "fl binary64 (3 / 4) = Some (3 / 4)"
  "fl binary64 (100) = Some (100)"
  "fl binary64 (25) = Some (25)"
  "fl binary64 (75) = Some (75)"
  "fl binary64 (10) = Some (10)"
  subgoal using fl_eval [of "- 1" "1 / 2" binary64]
    by (simp add: binary64_def round_half_even_def Let_def)
  subgoal using fl_eval [of "- 2" "1 / 4" binary64]
    by (simp add: binary64_def round_half_even_def Let_def)
  subgoal using fl_eval [of "- 1" "3 / 4" binary64]
    by (simp add: binary64_def round_half_even_def Let_def)
  subgoal using fl_eval [of "6" "100" binary64]
    by (simp add: binary64_def round_half_even_def Let_def)
  subgoal using fl_eval [of "4" "25" binary64]
    by (simp add: binary64_def round_half_even_def Let_def)
  subgoal using fl_eval [of "6" "75" binary64]
    by (simp add: binary64_def round_half_even_def Let_def)
  subgoal using fl_eval [of "3" "10" binary64]
    by (simp add: binary64_def round_half_even_def Let_def)
  done

lemma double_0_3_nearest: "fl binary64 (3 / 10) = Some double_0_3"
  using fl_eval [of "- 2" "3 / 10" binary64]
  by (simp add: binary64_def double_0_3_def round_half_even_def Let_def)

lemma double_0_3_exact: "fl binary64 double_0_3 = Some double_0_3"
  using fl_eval [of "- 2" double_0_3 binary64]
  by (simp add: binary64_def double_0_3_def round_half_even_def Let_def)

lemma double_0_3_times_10: "fl binary64 (double_0_3 * 10) = Some 3"
  using fl_eval [of 1 "double_0_3 * 10" binary64]
  by (simp add: binary64_def double_0_3_def round_half_even_def Let_def)

lemma fl_zero [simp]: "fl fmt 0 = Some 0"
  by (simp add: fl_def)

section \<open>Integer conversion and failures of \<open>colors_extracted\<close>\<close>

lemma py_int_trunc: "py_int r = trunc_toward_zero r"
  by (simp add: py_int_def trunc_toward_zero_def ceiling_def)

lemma py_int_magnitude:
  "\<bar>real_of_int (py_int r)\<bar> \<le> \<bar>r\<bar> \<and> \<bar>r\<bar> < \<bar>real_of_int (py_int r)\<bar> + 1"
proof (cases "0 \<le> r")
  case True
  then have "0 \<le> \<lfloor>r\<rfloor>" by simp
  moreover have "real_of_int \<lfloor>r\<rfloor> \<le> r" "r < real_of_int \<lfloor>r\<rfloor> + 1"
    by (rule of_int_floor_le, rule real_of_int_floor_add_one_gt)
  ultimately show ?thesis using True by (simp add: py_int_def)
next
  case False
  then have "\<lceil>r\<rceil> \<le> 0" by (simp add: ceiling_le_iff)
  moreover have "r \<le> real_of_int \<lceil>r\<rceil>" "real_of_int \<lceil>r\<rceil> - 1 < r"
    using ceiling_correct [of r] by simp_all
  ultimately show ?thesis using False by (simp add: py_int_def)
qed

lemma int_of_float_None [simp]: "int_of_float None = None"
  by (simp add: int_of_float_def)

lemma fp_mul_None [simp]: "fp_mul fmt None b = None"
  by (simp add: fp_mul_def)

lemma fp_sub_None [simp]: "fp_sub fmt None b = None" "fp_sub fmt a None = None"
  by (simp_all add: fp_sub_def split: option.splits)

lemma fp_add_None [simp]: "fp_add fmt None b = None" "fp_add fmt a None = None"
  by (simp_all add: fp_add_def split: option.splits)

lemma fp_half_None [simp]: "fp_half fmt None = None"
  by (simp add: fp_half_def)

lemma wrong_length_box_fails:
  "length yolo_bbox \<noteq> 4 \<Longrightarrow> extract_bbox_coordinates fmt yolo_bbox W H = None"
  by (auto simp: extract_bbox_coordinates_def split: list.splits)

lemma malformed_box_fails:
  assumes "v \<in> set yolo_bbox" and "v = Non_Finite \<or> v = Non_Numeric"
  shows "extract_bbox_coordinates fmt yolo_bbox W H = None"
proof (cases "length yolo_bbox = 4")
  case False
  then show ?thesis by (rule wrong_length_box_fails)
next
  case True
  then obtain a b c d where box: "yolo_bbox = [a, b, c, d]"
    by (auto simp: length_Suc_conv numeral_eq_Suc)
  from assms(2) have n: "float_of v = None" by (auto simp: float_of_def)
  from assms(1) box have "v = a \<or> v = b \<or> v = c \<or> v = d" by simp
  then show ?thesis
    using n by (auto simp: extract_bbox_coordinates_def box split: option.splits)
qed

lemma short_box_fails: "extract_bbox_coordinates fmt [a, b, c] W H = None"
  by (simp add: wrong_length_box_fails)

lemma non_finite_box_fails: "extract_bbox_coordinates fmt [Non_Finite, b, c, d] W H = None"
  by (rule malformed_box_fails [of Non_Finite]) simp_all

lemma dominant_loop_bad_box:
  assumes "obj \<in> set objects_data"
    and "extract_bbox_coordinates fmt (snd obj) (int (image_width img)) (int (image_height img)) = None"
  shows "dominant_loop fmt kmeans img objects_data = None"
  using assms by (induction objects_data) (auto split: option.splits)

lemma dominant_loop_bad_crop:
  assumes "obj \<in> set objects_data"
    and "extract_bbox_coordinates fmt (snd obj) (int (image_width img)) (int (image_height img)) =
           Some (x1, y1, x2, y2)"
    and "find_dominant_colors kmeans (crop img y1 y2 x1 x2) 1 = None"
    and "dominant_loop fmt kmeans img objects_data = Some dominant_colors"
  shows "None \<in> set dominant_colors"
  using assms
proof (induction objects_data arbitrary: dominant_colors)
  case Nil
  then show ?case by simp
next
  case (Cons o1 os)
  then show ?case by (auto split: option.splits prod.splits)
qed

lemma find_similar_objects_None: "None \<in> set cs \<Longrightarrow> find_similar_objects cs = None"
  by (simp add: find_similar_objects_def group_loop_None)

section \<open>Worked boxes and crops\<close>

lemmas bbox_eval = extract_bbox_coordinates_def float_of_def int_of_float_def py_int_def
  fp_mul_def fp_sub_def fp_add_def fp_half_def fl_binary32_values fl_binary64_values

lemma box_zero_size: "extract_bbox_coordinates binary32 [Num (1 / 2), Num (1 / 2), Num 0, Num 0] 4 4 = Some (2, 2, 2, 2)"
  by (simp add: bbox_eval)

lemma box_half_of_4: "extract_bbox_coordinates binary32 [Num (1 / 2), Num (1 / 2), Num (1 / 2), Num (1 / 2)] 4 4 = Some (1, 1, 3, 3)"
  by (simp add: bbox_eval)

lemma box_half_of_100_binary32: "extract_bbox_coordinates binary32 [Num (1 / 2), Num (1 / 2), Num (1 / 2), Num (1 / 2)] 100 100 =
     Some (25, 25, 75, 75)"
  by (simp add: bbox_eval)

lemma box_half_of_100_binary64: "extract_bbox_coordinates binary64 [Num (1 / 2), Num (1 / 2), Num (1 / 2), Num (1 / 2)] 100 100 =
     Some (25, 25, 75, 75)"
  by (simp add: bbox_eval)

lemma box_fractions: "extract_bbox_coordinates binary32 [Num (15 / 32), Num (1 / 8), Num 0, Num (1 / 2)] 10 10 =
     Some (4, - 1, 4, 3)"
  by (simp add: bbox_eval ceiling_def)

lemma box_double_0_3: "extract_bbox_coordinates binary64 [Num double_0_3, Num double_0_3, Num 0, Num 0] 10 10 =
     Some (3, 3, 3, 3)"
  by (simp add: bbox_eval double_0_3_exact double_0_3_times_10)

lemma exact_product_double_0_3: "trunc_toward_zero ((double_0_3 - 0 / 2) * of_int 10) = 2"
  by (simp add: trunc_toward_zero_def double_0_3_def)

lemma exact_axis_half: "exact_axis binary32 (1 / 2) (1 / 2) 100"
  by (simp add: exact_axis_def exact_def fl_binary32_values)

lemma crop_half_of_4: "concat (crop example_image 1 3 1 3) = replicate 4 (255, 0, 0)"
  by code_simp

lemma crop_zero_size: "concat (crop example_image 2 2 2 2) = []"
  by code_simp

lemma example_dimensions:
  "int (image_width example_image) = 4" "int (image_height example_image) = 4"
  by (simp_all add: example_image_def)

lemma kmeans_example_values:
  "kmeans_example [] k = None"
  "kmeans_example (replicate 4 (255, 0, 0)) (Suc 0) = Some [(255, 0, 0)]"
  by (simp_all add: kmeans_example_def)

lemmas pipeline_eval = colors_extracted_def example_dimensions box_zero_size box_half_of_4
  crop_half_of_4 crop_zero_size find_dominant_colors_def kmeans_example_values
  find_similar_objects_def

section \<open>The loop with the test the code computes\<close>

text \<open>
  What holds of the loop when the test is taken as the code computes it, \<open>similar\<close>:
  the next colour joins the first group, in order of creation, whose representative
  passes the test, or founds a group; the groups that exist keep position, key and
  index. And for an input of two colours the threshold is strict in the Euclidean
  distance.
\<close>

lemma first_passing_group:
  assumes "find_similar_objects (map Some cs) = Some g"
  shows "(\<forall>j<length g.
            similar c (fst (g ! j)) \<and> (\<forall>j'<j. \<not> similar c (fst (g ! j'))) \<longrightarrow>
            find_similar_objects (map Some (cs @ [c])) =
              Some (g[j := (fst (g ! j), (snd (g ! j))\<lparr>count := count (snd (g ! j)) + 1\<rparr>)])) \<and>
         ((\<forall>j<length g. \<not> similar c (fst (g ! j))) \<longrightarrow>
            find_similar_objects (map Some (cs @ [c])) =
              Some (g @ [(c, \<lparr>index = length cs, count = 1\<rparr>)])) \<and>
         (\<exists>g'. find_similar_objects (map Some (cs @ [c])) = Some g' \<and>
               length g \<le> length g' \<and>
               (\<forall>j<length g. fst (g' ! j) = fst (g ! j) \<and>
                              index (snd (g' ! j)) = index (snd (g ! j))))"
proof -
  from assms have g: "run 0 cs [] = g" by (simp add: find_similar_objects_run)
  have step: "find_similar_objects (map Some (cs @ [c])) = Some (group_step (length cs) c g)"
    using find_similar_objects_snoc [of cs c] g by simp
  have a: "find_similar_objects (map Some (cs @ [c])) =
        Some (g[j := (fst (g ! j), (snd (g ! j))\<lparr>count := count (snd (g ! j)) + 1\<rparr>)])"
    if "j < length g" "similar c (fst (g ! j))" "\<forall>j'<j. \<not> similar c (fst (g ! j'))" for j
    using first_match_keys_Some [OF that] unfolding step by (simp add: group_step_def bump_def)
  have b: "find_similar_objects (map Some (cs @ [c])) =
        Some (g @ [(c, \<lparr>index = length cs, count = 1\<rparr>)])"
    if "\<forall>j<length g. \<not> similar c (fst (g ! j))"
    using first_match_keys_None [OF that] unfolding step by (simp add: group_step_def)
  from a b step group_step_keeps [of g "length cs" c] show ?thesis by blast
qed

lemma threshold_strict_pair:
  "(euclidean_distance a b = 10 \<longrightarrow>
      find_similar_objects [Some a, Some b] =
        Some [(a, \<lparr>index = 0, count = 1\<rparr>), (b, \<lparr>index = 1, count = 1\<rparr>)]) \<and>
   (euclidean_distance a b < 10 \<longrightarrow>
      find_similar_objects [Some a, Some b] = Some [(a, \<lparr>index = 0, count = 2\<rparr>)])"
proof -
  have sym: "similar b a = similar a b"
    by (simp add: similar_def color_distance_commute [of a b])
  have one: "find_similar_objects [Some a, Some b] =
        Some [(a, \<lparr>index = 0, count = 1\<rparr>), (b, \<lparr>index = 1, count = 1\<rparr>)]"
    if "euclidean_distance a b = 10"
  proof -
    from that have "\<not> similar b a" using not_similar_at_ten sym by blast
    then show ?thesis
      using find_similar_objects_run [of "[a, b]"] by (simp add: group_step_def)
  qed
  have two: "find_similar_objects [Some a, Some b] = Some [(a, \<lparr>index = 0, count = 2\<rparr>)]"
    if "euclidean_distance a b < 10"
  proof -
    from that have "similar b a" using similar_of_close sym by blast
    then show ?thesis
      using find_similar_objects_run [of "[a, b]"] by (simp add: group_step_def bump_def)
  qed
  from one two show ?thesis by blast
qed

section \<open>Claims\<close>

text \<open>
  Claim C1. For every input sequence of colours, none of them \<open>None\<close>,
  \<open>find_similar_objects\<close> returns a mapping whose counts add up to the length of the
  input. Its keys are distinct, every input position is counted by the group
  \<open>group_of\<close> assigns it to, which is one of the returned groups, and the count of each
  group is the number of positions assigned to it: the groups partition the positions.
\<close>

theorem groups_partition_input:
  "\<exists>g. find_similar_objects (map Some cs) = Some g \<and>
        sum_list (map (count \<circ> snd) g) = length cs \<and>
        distinct (map fst g) \<and>
        (\<forall>i<length cs. group_of cs i \<in> fst ` set g) \<and>
        (\<forall>e\<in>set g. count (snd e) = card {i. i < length cs \<and> group_of cs i = fst e})"
proof -
  let ?g = "run 0 cs []"
  have inv: "counted cs ?g" by (rule counted_run)
  have "\<forall>e\<in>set ?g. count (snd e) = card {i. i < length cs \<and> group_of cs i = fst e}"
  proof
    fix e assume "e \<in> set ?g"
    then obtain m where "m < length ?g" "e = ?g ! m" by (metis in_set_conv_nth)
    with inv show "count (snd e) = card {i. i < length cs \<and> group_of cs i = fst e}"
      by (simp add: counted_def members_def)
  qed
  moreover have "sum_list (map (count \<circ> snd) ?g) = length cs"
    by (simp add: total_run)
  ultimately show ?thesis
    using inv by (simp add: find_similar_objects_run counted_def)
qed

theorem groups_partition_input_witness:
  "find_similar_objects (map Some [(0, 0, 0), (20, 0, 0), (21, 0, 0)]) =
     Some [((0, 0, 0), \<lparr>index = 0, count = 1\<rparr>), ((20, 0, 0), \<lparr>index = 1, count = 2\<rparr>)] \<and>
   sum_list (map (count \<circ> snd)
     ([((0, 0, 0), \<lparr>index = 0, count = 1\<rparr>), ((20, 0, 0), \<lparr>index = 1, count = 2\<rparr>)]
        :: color_groups)) =
     length [(0, 0, 0), (20, 0, 0), (21, 0, 0) :: color] \<and>
   card {i. i < length [(0, 0, 0), (20, 0, 0), (21, 0, 0) :: color] \<and>
            group_of [(0, 0, 0), (20, 0, 0), (21, 0, 0)] i = (0, 0, 0)} = 1 \<and>
   card {i. i < length [(0, 0, 0), (20, 0, 0), (21, 0, 0) :: color] \<and>
            group_of [(0, 0, 0), (20, 0, 0), (21, 0, 0)] i = (20, 0, 0)} = 2"
proof -
  let ?cs = "[(0, 0, 0), (20, 0, 0), (21, 0, 0)] :: color list"
  let ?g0 = "[((0, 0, 0), \<lparr>index = 0, count = 1\<rparr>), ((20, 0, 0), \<lparr>index = 1, count = 2\<rparr>)]
             :: color_groups"
  have ev: "find_similar_objects (map Some ?cs) = Some ?g0"
    by (rule example_groups)
  from groups_partition_input [of ?cs] obtain g where
    g: "find_similar_objects (map Some ?cs) = Some g" and
    total: "sum_list (map (count \<circ> snd) g) = length ?cs" and
    each: "\<forall>e\<in>set g. count (snd e) = card {i. i < length ?cs \<and> group_of ?cs i = fst e}"
    by blast
  from g ev have eq: "g = ?g0" by (simp only: option.inject)
  from each [unfolded eq]
  have a: "card {i. i < length ?cs \<and> group_of ?cs i = (0, 0, 0)} = 1"
    and b: "card {i. i < length ?cs \<and> group_of ?cs i = (20, 0, 0)} = 2"
    by simp_all
  show ?thesis
    using ev total [unfolded eq] a b by (intro conjI) assumption+
qed

text \<open>
  Claim C2. \<open>color_distance\<close> is meant to return the Euclidean distance over the raw
  channel values. The subtraction and the square are 8-bit operations, so a channel
  difference of 16 squares to 0: for the colours \<open>(16, 0, 0)\<close> and \<open>(0, 0, 0)\<close> the
  function returns 0, while their Euclidean distance is 16.
\<close>

theorem color_distance_wraps:
  "color_distance (Some (16, 0, 0)) (Some (0, 0, 0)) = Some 0 \<and>
   euclidean_distance (16, 0, 0) (0, 0, 0) = 16"
proof -
  have "sqrt 256 = (16::real)" by (rule real_sqrt_unique) simp_all
  then show ?thesis
    by (simp add: color_distance_def sq_diff_def np_sum_def euclidean_distance_def
        euclidean_sq_def channel_diff_def)
qed

text \<open>
  Claim C3, as amended. When converting the box of some detection to pixel
  coordinates fails (fewer than 4 components or malformed values), or its crop has no
  pixels and the clustering call fails on it, the failure is not confined to that
  detection: \<open>colors_extracted\<close> returns \<open>None\<close> for the whole list, no detection is
  grouped, and \<open>process_image\<close> leaves the store as it was.
\<close>

theorem failure_aborts_whole_run:
  assumes "obj \<in> set objects_data"
    and "extract_bbox_coordinates fmt (snd obj) (int (image_width img)) (int (image_height img)) = None \<or>
         (\<exists>x1 y1 x2 y2.
            extract_bbox_coordinates fmt (snd obj) (int (image_width img)) (int (image_height img)) =
              Some (x1, y1, x2, y2) \<and>
            concat (crop img y1 y2 x1 x2) = [] \<and> kmeans [] 1 = None)"
  shows "colors_extracted fmt kmeans img objects_data = None \<and>
         process_image fmt kmeans (Some img) (Some (objects_data, class_names)) db =
           (db, Processing_Error)"
proof -
  have "colors_extracted fmt kmeans img objects_data = None"
    using assms(2)
  proof (elim disjE exE conjE)
    assume "extract_bbox_coordinates fmt (snd obj) (int (image_width img)) (int (image_height img)) = None"
    with assms(1) show ?thesis
      by (simp add: colors_extracted_def dominant_loop_bad_box)
  next
    fix x1 y1 x2 y2
    assume b: "extract_bbox_coordinates fmt (snd obj) (int (image_width img)) (int (image_height img)) =
              Some (x1, y1, x2, y2)"
      and e: "concat (crop img y1 y2 x1 x2) = []" and k: "kmeans [] 1 = None"
    from e k have d: "find_dominant_colors kmeans (crop img y1 y2 x1 x2) 1 = None"
      by (simp only: find_dominant_colors_def option.case)
    show ?thesis
    proof (cases "dominant_loop fmt kmeans img objects_data")
      case None
      then show ?thesis by (simp add: colors_extracted_def)
    next
      case (Some dominant_colors)
      with assms(1) b d have "None \<in> set dominant_colors"
        by (rule dominant_loop_bad_crop)
      then show ?thesis
        using Some by (simp add: colors_extracted_def find_similar_objects_None)
    qed
  qed
  then show ?thesis by (simp add: process_image_def)
qed

theorem failure_aborts_whole_run_witness:
  "(0, [Num 0.5, Num 0.5, Num 0, Num 0]) \<in>
     set [(0, [Num 0.5, Num 0.5, Num 0, Num 0]), (1, [Num 0.5, Num 0.5, Num 0.5, Num 0.5]) :: detection] \<and>
   extract_bbox_coordinates binary32 [Num 0.5, Num 0.5, Num 0, Num 0] 4 4 = Some (2, 2, 2, 2) \<and>
   concat (crop example_image 2 2 2 2) = [] \<and>
   kmeans_example [] 1 = None \<and>
   colors_extracted binary32 kmeans_example example_image
     [(0, [Num 0.5, Num 0.5, Num 0, Num 0]), (1, [Num 0.5, Num 0.5, Num 0.5, Num 0.5])] = None \<and>
   process_image binary32 kmeans_example (Some example_image)
     (Some ([(0, [Num 0.5, Num 0.5, Num 0, Num 0]), (1, [Num 0.5, Num 0.5, Num 0.5, Num 0.5])],
            [1 \<mapsto> ''bottle'']))
     \<lparr>table_exists = False, colors_results = []\<rparr> =
     (\<lparr>table_exists = False, colors_results = []\<rparr>, Processing_Error) \<and>
   extract_bbox_coordinates binary32 [Num 0.5, Num 0.5, Num 0.5] 4 4 = None \<and>
   colors_extracted binary32 kmeans_example example_image
     [(0, [Num 0.5, Num 0.5, Num 0.5]), (1, [Num 0.5, Num 0.5, Num 0.5, Num 0.5])] = None \<and>
   extract_bbox_coordinates binary32 [Non_Finite, Num 0.5, Num 0.5, Num 0.5] 4 4 = None \<and>
   colors_extracted binary32 kmeans_example example_image
     [(0, [Non_Finite, Num 0.5, Num 0.5, Num 0.5]), (1, [Num 0.5, Num 0.5, Num 0.5, Num 0.5])] = None"
proof -
  let ?good = "(1, [Num 0.5, Num 0.5, Num 0.5, Num 0.5]) :: detection"
  let ?names = "[1 \<mapsto> ''bottle''] :: int \<rightharpoonup> string"
  let ?db = "\<lparr>table_exists = False, colors_results = []\<rparr> :: database"
  have w: "int (image_width example_image) = 4" "int (image_height example_image) = 4"
    by (simp_all add: example_image_def)
  have k: "kmeans_example [] 1 = None"
    by (simp add: kmeans_example_def)
  let ?empty = "(0, [Num 0.5, Num 0.5, Num 0, Num 0]) :: detection"
  have m1: "?empty \<in> set [?empty, ?good]" by simp
  have b1: "extract_bbox_coordinates binary32 [Num 0.5, Num 0.5, Num 0, Num 0] 4 4 = Some (2, 2, 2, 2)"
    by (simp add: box_zero_size)
  have c1: "concat (crop example_image 2 2 2 2) = []"
    by (rule crop_zero_size)
  have "extract_bbox_coordinates binary32 (snd ?empty) (int (image_width example_image))
            (int (image_height example_image)) = None \<or>
        (\<exists>x1 y1 x2 y2.
           extract_bbox_coordinates binary32 (snd ?empty) (int (image_width example_image))
             (int (image_height example_image)) = Some (x1, y1, x2, y2) \<and>
           concat (crop example_image y1 y2 x1 x2) = [] \<and> kmeans_example [] 1 = None)"
    using b1 c1 k by (simp add: w)
  note crop_case = failure_aborts_whole_run [where obj = ?empty and objects_data = "[?empty, ?good]"
      and fmt = binary32 and img = example_image and kmeans = kmeans_example
      and class_names = ?names and db = ?db, OF m1 this]
  let ?short = "(0, [Num 0.5, Num 0.5, Num 0.5]) :: detection"
  have m2: "?short \<in> set [?short, ?good]" by simp
  have b2: "extract_bbox_coordinates binary32 [Num 0.5, Num 0.5, Num 0.5] 4 4 = None"
    by (rule short_box_fails)
  have "extract_bbox_coordinates binary32 (snd ?short) (int (image_width example_image))
            (int (image_height example_image)) = None \<or>
        (\<exists>x1 y1 x2 y2.
           extract_bbox_coordinates binary32 (snd ?short) (int (image_width example_image))
             (int (image_height example_image)) = Some (x1, y1, x2, y2) \<and>
           concat (crop example_image y1 y2 x1 x2) = [] \<and> kmeans_example [] 1 = None)"
    using b2 by (simp add: w)
  note short_case = failure_aborts_whole_run [where obj = ?short and objects_data = "[?short, ?good]"
      and fmt = binary32 and img = example_image and kmeans = kmeans_example
      and class_names = ?names and db = ?db, OF m2 this]
  let ?nan = "(0, [Non_Finite, Num 0.5, Num 0.5, Num 0.5]) :: detection"
  have m3: "?nan \<in> set [?nan, ?good]" by simp
  have b3: "extract_bbox_coordinates binary32 [Non_Finite, Num 0.5, Num 0.5, Num 0.5] 4 4 = None"
    by (rule non_finite_box_fails)
  have "extract_bbox_coordinates binary32 (snd ?nan) (int (image_width example_image))
            (int (image_height example_image)) = None \<or>
        (\<exists>x1 y1 x2 y2.
           extract_bbox_coordinates binary32 (snd ?nan) (int (image_width example_image))
             (int (image_height example_image)) = Some (x1, y1, x2, y2) \<and>
           concat (crop example_image y1 y2 x1 x2) = [] \<and> kmeans_example [] 1 = None)"
    using b3 by (simp add: w)
  note nan_case = failure_aborts_whole_run [where obj = ?nan and objects_data = "[?nan, ?good]"
      and fmt = binary32 and img = example_image and kmeans = kmeans_example
      and class_names = ?names and db = ?db, OF m3 this]
  from crop_case short_case nan_case m1 b1 c1 k b2 b3
  show ?thesis by (intro conjI) simp_all
qed

text \<open>
  Claim C3, as stated, fails: with one detection whose box has three components, or a
  NaN component, or whose crop has no pixels, before a detection that is grouped when
  it is alone, the result is \<open>None\<close> and not the grouping of the remaining detection.
\<close>

theorem skip_only_failed_detection_counterexample:
  "colors_extracted binary32 kmeans_example example_image
     [(0, [Num 0.5, Num 0.5, Num 0.5]), (1, [Num 0.5, Num 0.5, Num 0.5, Num 0.5])] = None \<and>
   colors_extracted binary32 kmeans_example example_image
     [(0, [Non_Finite, Num 0.5, Num 0.5, Num 0.5]), (1, [Num 0.5, Num 0.5, Num 0.5, Num 0.5])] = None \<and>
   colors_extracted binary32 kmeans_example example_image
     [(0, [Num 0.5, Num 0.5, Num 0, Num 0]), (1, [Num 0.5, Num 0.5, Num 0.5, Num 0.5])] = None \<and>
   extract_bbox_coordinates binary32 [Num 0.5, Num 0.5, Num 0.5, Num 0.5] 4 4 = Some (1, 1, 3, 3) \<and>
   concat (crop example_image 1 3 1 3) = replicate 4 (255, 0, 0) \<and>
   colors_extracted binary32 kmeans_example example_image
     [(1, [Num 0.5, Num 0.5, Num 0.5, Num 0.5])] =
     Some [\<lparr>class_id = 1, result_count = 1, result_color = (255, 0, 0)\<rparr>]"
proof -
  have a: "colors_extracted binary32 kmeans_example example_image
     [(0, [Num 0.5, Num 0.5, Num 0.5]), (1, [Num 0.5, Num 0.5, Num 0.5, Num 0.5])] = None"
    by (simp add: pipeline_eval short_box_fails)
  have b: "colors_extracted binary32 kmeans_example example_image
     [(0, [Non_Finite, Num 0.5, Num 0.5, Num 0.5]), (1, [Num 0.5, Num 0.5, Num 0.5, Num 0.5])] = None"
    by (simp add: pipeline_eval non_finite_box_fails)
  have c: "colors_extracted binary32 kmeans_example example_image
     [(0, [Num 0.5, Num 0.5, Num 0, Num 0]), (1, [Num 0.5, Num 0.5, Num 0.5, Num 0.5])] = None"
    by (simp add: pipeline_eval)
  have d: "colors_extracted binary32 kmeans_example example_image
     [(1, [Num 0.5, Num 0.5, Num 0.5, Num 0.5])] =
     Some [\<lparr>class_id = 1, result_count = 1, result_color = (255, 0, 0)\<rparr>]"
    by (simp add: pipeline_eval)
  have e: "extract_bbox_coordinates binary32 [Num 0.5, Num 0.5, Num 0.5, Num 0.5] 4 4 =
      Some (1, 1, 3, 3)"
    by (simp add: box_half_of_4)
  from a b c e crop_half_of_4 d show ?thesis by (intro conjI)
qed

text \<open>
  Claim C4. The threshold is meant to be strict in the Euclidean distance, a colour
  below distance 10 of a representative joining it when no group created earlier is
  within the threshold. For the input \<open>(0, 0, 0)\<close>, \<open>(20, 0, 0)\<close>, \<open>(16, 0, 0)\<close> the third
  colour is at Euclidean distance 4 of the second and 16 of the first, yet the loop
  counts it in the group of the first: \<open>color_distance\<close> wraps and returns 0 for it.
\<close>

theorem threshold_wrapped_earlier_group:
  "find_similar_objects (map Some [(0, 0, 0), (20, 0, 0), (16, 0, 0)]) =
     Some [((0, 0, 0), \<lparr>index = 0, count = 2\<rparr>), ((20, 0, 0), \<lparr>index = 1, count = 1\<rparr>)] \<and>
   euclidean_distance (16, 0, 0) (20, 0, 0) = 4 \<and>
   euclidean_distance (16, 0, 0) (0, 0, 0) = 16 \<and>
   color_distance (Some (16, 0, 0)) (Some (0, 0, 0)) = Some 0"
proof -
  have a: "find_similar_objects (map Some [(0, 0, 0), (20, 0, 0), (16, 0, 0)]) =
     Some [((0, 0, 0), \<lparr>index = 0, count = 2\<rparr>), ((20, 0, 0), \<lparr>index = 1, count = 1\<rparr>)]"
    by code_simp
  have "sqrt 16 = (4::real)" by (rule real_sqrt_unique) simp_all
  then have b: "euclidean_distance (16, 0, 0) (20, 0, 0) = 4"
    by (simp add: euclidean_distance_def euclidean_sq_def channel_diff_def)
  have "sqrt 256 = (16::real)" by (rule real_sqrt_unique) simp_all
  then have c: "euclidean_distance (16, 0, 0) (0, 0, 0) = 16"
    by (simp add: euclidean_distance_def euclidean_sq_def channel_diff_def)
  have d: "color_distance (Some (16, 0, 0)) (Some (0, 0, 0)) = Some 0"
    by (simp add: color_distance_def sq_diff_def np_sum_def)
  from a b c d show ?thesis by (intro conjI)
qed

text \<open>
  Claim C5. A colour is meant to join the first group, in order of creation, whose
  representative is at Euclidean distance below 10, and to found a group otherwise.
  For the input \<open>(0, 0, 0)\<close>, \<open>(16, 0, 0)\<close> the second colour is at Euclidean distance
  16 of the only representative, yet the loop counts it in that group instead of
  founding one: \<open>color_distance\<close> wraps and the test passes.
\<close>

theorem first_match_wrapped_distance:
  "find_similar_objects (map Some [(0, 0, 0), (16, 0, 0)]) =
     Some [((0, 0, 0), \<lparr>index = 0, count = 2\<rparr>)] \<and>
   euclidean_distance (16, 0, 0) (0, 0, 0) = 16 \<and>
   similar (16, 0, 0) (0, 0, 0)"
proof -
  have a: "find_similar_objects (map Some [(0, 0, 0), (16, 0, 0)]) =
     Some [((0, 0, 0), \<lparr>index = 0, count = 2\<rparr>)]"
    by code_simp
  have "sqrt 256 = (16::real)" by (rule real_sqrt_unique) simp_all
  then have b: "euclidean_distance (16, 0, 0) (0, 0, 0) = 16"
    by (simp add: euclidean_distance_def euclidean_sq_def channel_diff_def)
  have c: "similar (16, 0, 0) (0, 0, 0)" by code_simp
  from a b c show ?thesis by (intro conjI)
qed

text \<open>
  Claim C6, as amended. For a box of four finite numbers the conversion computes
  the four products in floating point, each of the division by 2, the subtraction or
  addition and the product being rounded to the nearest float, and truncates the
  rounded products toward zero. Where these operations are exact, the result is
  \<open>x1 = trunc((cx - w/2) * width)\<close>, \<open>y1 = trunc((cy - h/2) * height)\<close>,
  \<open>x2 = trunc((cx + w/2) * width)\<close>, \<open>y2 = trunc((cy + h/2) * height)\<close>. The box
  \<open>(0.5, 0.5, 0.5, 0.5)\<close> on a 100 by 100 image gives \<open>(25, 25, 75, 75)\<close>; 4.6875 becomes
  4 (no rounding to nearest) and -1.25 becomes -1 (no floor).
\<close>

theorem bbox_truncates_float_products:
  "(exact_axis fmt cx w W \<and> exact_axis fmt cy h H \<longrightarrow>
      extract_bbox_coordinates fmt [Num cx, Num cy, Num w, Num h] W H =
        Some (trunc_toward_zero ((cx - w / 2) * of_int W),
              trunc_toward_zero ((cy - h / 2) * of_int H),
              trunc_toward_zero ((cx + w / 2) * of_int W),
              trunc_toward_zero ((cy + h / 2) * of_int H))) \<and>
   extract_bbox_coordinates fmt [Num cx, Num cy, Num w, Num h] W H =
     (case (fp_mul fmt (fp_sub fmt (Some cx) (fp_half fmt (Some w))) (fl fmt (of_int W)),
            fp_mul fmt (fp_sub fmt (Some cy) (fp_half fmt (Some h))) (fl fmt (of_int H)),
            fp_mul fmt (fp_add fmt (Some cx) (fp_half fmt (Some w))) (fl fmt (of_int W)),
            fp_mul fmt (fp_add fmt (Some cy) (fp_half fmt (Some h))) (fl fmt (of_int H))) of
        (Some px1, Some py1, Some px2, Some py2) \<Rightarrow>
          Some (trunc_toward_zero px1, trunc_toward_zero py1,
                trunc_toward_zero px2, trunc_toward_zero py2)
      | _ \<Rightarrow> None) \<and>
   extract_bbox_coordinates binary32 [Num 0.5, Num 0.5, Num 0.5, Num 0.5] 100 100 =
     Some (25, 25, 75, 75) \<and>
   extract_bbox_coordinates binary64 [Num 0.5, Num 0.5, Num 0.5, Num 0.5] 100 100 =
     Some (25, 25, 75, 75) \<and>
   extract_bbox_coordinates binary32 [Num 0.46875, Num 0.125, Num 0, Num 0.5] 10 10 =
     Some (4, - 1, 4, 3)"
proof -
  have general: "extract_bbox_coordinates fmt [Num cx, Num cy, Num w, Num h] W H =
     (case (fp_mul fmt (fp_sub fmt (Some cx) (fp_half fmt (Some w))) (fl fmt (of_int W)),
            fp_mul fmt (fp_sub fmt (Some cy) (fp_half fmt (Some h))) (fl fmt (of_int H)),
            fp_mul fmt (fp_add fmt (Some cx) (fp_half fmt (Some w))) (fl fmt (of_int W)),
            fp_mul fmt (fp_add fmt (Some cy) (fp_half fmt (Some h))) (fl fmt (of_int H))) of
        (Some px1, Some py1, Some px2, Some py2) \<Rightarrow>
          Some (trunc_toward_zero px1, trunc_toward_zero py1,
                trunc_toward_zero px2, trunc_toward_zero py2)
      | _ \<Rightarrow> None)"
    by (simp add: extract_bbox_coordinates_def float_of_def int_of_float_def py_int_trunc
        split: option.splits)
  have exact_case: "extract_bbox_coordinates fmt [Num cx, Num cy, Num w, Num h] W H =
        Some (trunc_toward_zero ((cx - w / 2) * of_int W),
              trunc_toward_zero ((cy - h / 2) * of_int H),
              trunc_toward_zero ((cx + w / 2) * of_int W),
              trunc_toward_zero ((cy + h / 2) * of_int H))"
    if "exact_axis fmt cx w W" "exact_axis fmt cy h H"
    using that unfolding general
    by (simp add: exact_axis_def exact_def fp_mul_def fp_sub_def fp_add_def fp_half_def)
  have a: "extract_bbox_coordinates binary32 [Num 0.5, Num 0.5, Num 0.5, Num 0.5] 100 100 =
     Some (25, 25, 75, 75)"
    by (simp add: box_half_of_100_binary32)
  have b: "extract_bbox_coordinates binary64 [Num 0.5, Num 0.5, Num 0.5, Num 0.5] 100 100 =
     Some (25, 25, 75, 75)"
    by (simp add: box_half_of_100_binary64)
  have c: "extract_bbox_coordinates binary32 [Num 0.46875, Num 0.125, Num 0, Num 0.5] 10 10 =
     Some (4, - 1, 4, 3)"
    by (simp add: box_fractions)
  from general exact_case a b c show ?thesis by blast
qed

theorem bbox_truncates_float_products_witness:
  "exact_axis binary32 0.5 0.5 100 \<and>
   extract_bbox_coordinates binary32 [Num 0.5, Num 0.5, Num 0.5, Num 0.5] 100 100 =
     Some (trunc_toward_zero ((0.5 - 0.5 / 2) * of_int 100),
           trunc_toward_zero ((0.5 - 0.5 / 2) * of_int 100),
           trunc_toward_zero ((0.5 + 0.5 / 2) * of_int 100),
           trunc_toward_zero ((0.5 + 0.5 / 2) * of_int 100)) \<and>
   trunc_toward_zero ((0.5 - 0.5 / 2) * of_int 100) = 25 \<and>
   trunc_toward_zero ((0.5 + 0.5 / 2) * of_int 100) = 75"
proof -
  have e: "exact_axis binary32 0.5 0.5 100" by (simp add: exact_axis_half)
  have t: "trunc_toward_zero ((0.5 - 0.5 / 2) * of_int 100) = 25"
    "trunc_toward_zero ((0.5 + 0.5 / 2) * of_int 100) = 75"
    by (simp_all add: trunc_toward_zero_def)
  from bbox_truncates_float_products [of binary32 "0.5" "0.5" 100 "0.5" "0.5" 100] e
  have "extract_bbox_coordinates binary32 [Num 0.5, Num 0.5, Num 0.5, Num 0.5] 100 100 =
     Some (trunc_toward_zero ((0.5 - 0.5 / 2) * of_int 100),
           trunc_toward_zero ((0.5 - 0.5 / 2) * of_int 100),
           trunc_toward_zero ((0.5 + 0.5 / 2) * of_int 100),
           trunc_toward_zero ((0.5 + 0.5 / 2) * of_int 100))"
    by blast
  with e t show ?thesis by (intro conjI)
qed

text \<open>
  Claim C6, as stated, fails: for the double nearest to 0.3 as centre, extent 0 and
  dimension 10, the product is rounded to 3.0 and the conversion returns 3, while the
  truncation of the exact product of that double with 10 is 2.
\<close>

theorem bbox_exact_formula_counterexample:
  "fl binary64 (3 / 10) = Some double_0_3 \<and>
   extract_bbox_coordinates binary64 [Num double_0_3, Num double_0_3, Num 0, Num 0] 10 10 =
     Some (3, 3, 3, 3) \<and>
   trunc_toward_zero ((double_0_3 - 0 / 2) * of_int 10) = 2"
  using double_0_3_nearest box_double_0_3 exact_product_double_0_3 by (intro conjI)

text \<open>
  Claim C7. \<open>replace_class_ids_with_names\<close> returns one record per input record, in
  order; the class name is \<open>''Unknown''\<close> when the class id is not a key of the map and
  the mapped name when it is; count and colour are unchanged.
\<close>

theorem unknown_class_name:
  "length (replace_class_ids_with_names colors_result class_names) = length colors_result \<and>
   (\<forall>i<length colors_result.
      (class_id (colors_result ! i) \<notin> dom class_names \<longrightarrow>
         class_name (replace_class_ids_with_names colors_result class_names ! i) = ''Unknown'') \<and>
      (\<forall>name. class_names (class_id (colors_result ! i)) = Some name \<longrightarrow>
         class_name (replace_class_ids_with_names colors_result class_names ! i) = name) \<and>
      named_count (replace_class_ids_with_names colors_result class_names ! i) =
        result_count (colors_result ! i) \<and>
      named_color (replace_class_ids_with_names colors_result class_names ! i) =
        result_color (colors_result ! i))"
  by (auto simp: replace_class_ids_with_names_def)

theorem unknown_class_name_witness:
  "class_id (\<lparr>class_id = 5, result_count = 2, result_color = (1, 2, 3)\<rparr> :: color_result)
     \<notin> dom [0 \<mapsto> ''cat''] \<and>
   class_name (replace_class_ids_with_names
      [\<lparr>class_id = 5, result_count = 2, result_color = (1, 2, 3)\<rparr>,
       \<lparr>class_id = 0, result_count = 1, result_color = (9, 9, 9)\<rparr>] [0 \<mapsto> ''cat''] ! 0) = ''Unknown'' \<and>
   [0 \<mapsto> ''cat''] (class_id (\<lparr>class_id = 0, result_count = 1, result_color = (9, 9, 9)\<rparr> :: color_result))
     = Some ''cat'' \<and>
   class_name (replace_class_ids_with_names
      [\<lparr>class_id = 5, result_count = 2, result_color = (1, 2, 3)\<rparr>,
       \<lparr>class_id = 0, result_count = 1, result_color = (9, 9, 9)\<rparr>] [0 \<mapsto> ''cat''] ! 1) = ''cat''"
proof -
  let ?rs = "[\<lparr>class_id = 5, result_count = 2, result_color = (1, 2, 3)\<rparr>,
              \<lparr>class_id = 0, result_count = 1, result_color = (9, 9, 9)\<rparr>] :: color_result list"
  let ?names = "[0 \<mapsto> ''cat''] :: int \<rightharpoonup> string"
  have h0: "(0::nat) < length ?rs" and h1: "(1::nat) < length ?rs" by simp_all
  have a: "class_id (?rs ! 0) \<notin> dom ?names" by simp
  have b: "?names (class_id (?rs ! 1)) = Some ''cat''" by simp
  from unknown_class_name [of ?rs ?names] h0 a
  have u: "class_name (replace_class_ids_with_names ?rs ?names ! 0) = ''Unknown''" by blast
  from unknown_class_name [of ?rs ?names] h1 b
  have c: "class_name (replace_class_ids_with_names ?rs ?names ! 1) = ''cat''" by blast
  from u c show ?thesis by simp
qed

text \<open>
  Claim C8. With an empty detection list \<open>colors_extracted\<close> returns the empty list,
  and \<open>process_image\<close> completes without an error, creating the table when absent and
  inserting no row.
\<close>

theorem empty_detections_persist_nothing:
  "colors_extracted fmt kmeans img [] = Some [] \<and>
   replace_class_ids_with_names [] class_names = [] \<and>
   colors_results (save_to_database [] db) = colors_results db \<and>
   process_image fmt kmeans (Some img) (Some ([], class_names)) db =
     (\<lparr>table_exists = True, colors_results = colors_results db\<rparr>, Completed)"
  by (simp add: colors_extracted_def find_similar_objects_def replace_class_ids_with_names_def
      save_to_database_def process_image_def)

text \<open>
  Claim C10. For every input sequence of colours, none of them \<open>None\<close>, each group of
  the returned mapping has an index inside the input, its key is the input colour at
  that index, and its count is at least 1. Hence the lookup \<open>objects_data[obj_index]\<close>
  of \<open>colors_extracted\<close> never leaves a detection list of the same length, and reads
  the detection whose colour founded the group.
\<close>

theorem group_index_founder:
  "\<exists>g. find_similar_objects (map Some cs) = Some g \<and>
        (\<forall>e\<in>set g. index (snd e) < length cs \<and> cs ! index (snd e) = fst e \<and>
                     1 \<le> count (snd e)) \<and>
        (\<forall>objects_data. length objects_data = length cs \<longrightarrow>
           compile_results objects_data g =
             Some (map (\<lambda>e. \<lparr>class_id = fst (objects_data ! index (snd e)),
                              result_count = count (snd e), result_color = fst e\<rparr>) g))"
proof -
  have f: "founded cs (run 0 cs [])" by (rule founded_run)
  then have "\<forall>e\<in>set (run 0 cs []). index (snd e) < length objects_data"
    if "length objects_data = length cs" for objects_data :: "detection list"
    using that by (simp add: founded_def)
  then show ?thesis
    using f by (simp add: find_similar_objects_run founded_def compile_results_Some)
qed

theorem group_index_founder_witness:
  "find_similar_objects (map Some [(0, 0, 0), (20, 0, 0), (21, 0, 0)]) =
     Some [((0, 0, 0), \<lparr>index = 0, count = 1\<rparr>), ((20, 0, 0), \<lparr>index = 1, count = 2\<rparr>)] \<and>
   index (snd ((20, 0, 0) :: color, \<lparr>index = 1, count = 2\<rparr>)) <
     length [(0, 0, 0), (20, 0, 0), (21, 0, 0) :: color] \<and>
   [(0, 0, 0), (20, 0, 0), (21, 0, 0) :: color] !
     index (snd ((20, 0, 0) :: color, \<lparr>index = 1, count = 2\<rparr>)) = (20, 0, 0) \<and>
   1 \<le> count (snd ((20, 0, 0) :: color, \<lparr>index = 1, count = 2\<rparr>)) \<and>
   length [(7, []), (8, []), (9, []) :: detection] =
     length [(0, 0, 0), (20, 0, 0), (21, 0, 0) :: color] \<and>
   compile_results [(7, []), (8, []), (9, [])]
       [((0, 0, 0), \<lparr>index = 0, count = 1\<rparr>), ((20, 0, 0), \<lparr>index = 1, count = 2\<rparr>)] =
     Some [\<lparr>class_id = 7, result_count = 1, result_color = (0, 0, 0)\<rparr>,
           \<lparr>class_id = 8, result_count = 2, result_color = (20, 0, 0)\<rparr>]"
proof -
  let ?cs = "[(0, 0, 0), (20, 0, 0), (21, 0, 0)] :: color list"
  let ?g0 = "[((0, 0, 0), \<lparr>index = 0, count = 1\<rparr>), ((20, 0, 0), \<lparr>index = 1, count = 2\<rparr>)]
             :: color_groups"
  let ?e = "((20, 0, 0), \<lparr>index = 1, count = 2\<rparr>) :: color \<times> group_info"
  let ?objs = "[(7, []), (8, []), (9, [])] :: detection list"
  have ev: "find_similar_objects (map Some ?cs) = Some ?g0"
    by (rule example_groups)
  from group_index_founder [of ?cs] obtain g where
    g: "find_similar_objects (map Some ?cs) = Some g" and
    each: "\<forall>e\<in>set g. index (snd e) < length ?cs \<and> ?cs ! index (snd e) = fst e \<and>
                       1 \<le> count (snd e)" and
    look: "\<forall>objects_data. length objects_data = length ?cs \<longrightarrow>
             compile_results objects_data g =
               Some (map (\<lambda>e. \<lparr>class_id = fst (objects_data ! index (snd e)),
                                result_count = count (snd e), result_color = fst e\<rparr>) g)"
    by blast
  from g ev have eq: "g = ?g0" by (simp only: option.inject)
  have "?e \<in> set ?g0" by simp
  with each [unfolded eq]
  have one: "index (snd ?e) < length ?cs \<and> ?cs ! index (snd ?e) = fst ?e \<and> 1 \<le> count (snd ?e)"
    by blast
  have len: "length ?objs = length ?cs" by simp
  with look have "compile_results ?objs g =
      Some (map (\<lambda>e. \<lparr>class_id = fst (?objs ! index (snd e)),
                       result_count = count (snd e), result_color = fst e\<rparr>) g)"
    by blast
  then have "compile_results ?objs ?g0 =
      Some [\<lparr>class_id = 7, result_count = 1, result_color = (0, 0, 0)\<rparr>,
            \<lparr>class_id = 8, result_count = 2, result_color = (20, 0, 0)\<rparr>]"
    unfolding eq by simp
  with ev one len show ?thesis by simp
qed

end
